theory Spec2Isabelle
  imports Complex_Main "HOL-Library.Sublist" "HOL-Library.Multiset"
begin

section \<open>Data model\<close>

text \<open>
  The records follow the TypeScript interfaces \<^verbatim>\<open>PoolInfo\<close>, \<^verbatim>\<open>OnChainQuote\<close>,
  \<^verbatim>\<open>PoolRanking\<close> and \<^verbatim>\<open>SwapSimulation\<close>. An amount string
  (\<^verbatim>\<open>inputAmount\<close>, \<^verbatim>\<open>outputAmount\<close>) is the decimal rendering of a non-negative
  integer (\<^verbatim>\<open>bigint.toString()\<close> of a quoter result, the literal \<^verbatim>\<open>'0'\<close>, or the
  aggregator's amount); the model keeps the integer itself.
\<close>

text \<open>
  A JavaScript number that is not negative: a finite value or \<^verbatim>\<open>Infinity\<close>. Where a
  field may also hold \<^verbatim>\<open>NaN\<close> its type is \<open>number option\<close>, \<open>None\<close> being \<^verbatim>\<open>NaN\<close>.
\<close>

datatype number = Finite real | PosInfinity

record tokenInfo =
  address :: string
  symbol :: string
  decimals :: nat

record poolInfo =
  pool_address :: string
  pool_name :: string
  dex :: string
  network :: string
  tokens_base :: tokenInfo
  tokens_quote :: tokenInfo
  fee_tier :: "string option"

record onChainQuote =
  pool :: poolInfo
  inputAmount :: nat
  outputAmount :: nat
  pricePerToken :: "number option"
  gasEstimate :: "string option"
  executionPrice :: "number option"
  timestamp :: nat
  success :: bool
  error :: "string option"
  protocolDetails :: "string option"

record tokenPair =
  pair_id :: string
  pair_name :: string
  sellToken :: tokenInfo
  buyToken :: tokenInfo
  sellAmount :: string

record poolRanking =
  rank :: nat
  ranking_pool :: poolInfo
  quote :: onChainQuote
  priceAdvantage :: real

record swapSimulation =
  quotes :: "onChainQuote list"
  bestQuote :: "onChainQuote option"
  rankings :: "poolRanking list"

section \<open>Double-precision numbers\<close>

text \<open>
  \<^verbatim>\<open>parseFloat\<close> and \<^verbatim>\<open>Number\<close> turn an integer into the nearest IEEE 754 double
  (53 significant bits, ties to even); from \<open>2^1024 - 2^970\<close> on the result is
  \<^verbatim>\<open>Infinity\<close>. The double of a non-negative integer is again an integer, so
  \<open>round53\<close> computes it in \<open>nat\<close>.
\<close>

fun bitlength :: "nat \<Rightarrow> nat" where
  "bitlength n = (if n = 0 then 0 else Suc (bitlength (n div 2)))"

declare bitlength.simps [simp del]

definition round53 :: "nat \<Rightarrow> nat" where
  "round53 n =
     (if n < 2 ^ 53 then n
      else let e = bitlength n - 53;
               q = n div 2 ^ e;
               r = n mod 2 ^ e;
               h = 2 ^ (e - 1)
           in (if r < h \<or> (r = h \<and> even q) then q else q + 1) * 2 ^ e)"

definition parseFloat :: "nat \<Rightarrow> number" where
  "parseFloat n = (if round53 n < 2 ^ 1024 then Finite (real (round53 n)) else PosInfinity)"

text \<open>The test \<^verbatim>\<open>x > 0\<close> on such a number.\<close>

fun gt_zero :: "number \<Rightarrow> bool" where
  "gt_zero (Finite x) = (0 < x)"
| "gt_zero PosInfinity = True"

text \<open>
  The sign of the float difference \<^verbatim>\<open>x - y\<close> as a sort comparator sees it: the
  difference of two distinct finite doubles is never rounded to zero, and
  \<^verbatim>\<open>Infinity - Infinity\<close> is \<^verbatim>\<open>NaN\<close>, which \<^verbatim>\<open>Array.prototype.sort\<close> treats as \<open>0\<close>.
\<close>

fun diff_sign :: "number \<Rightarrow> number \<Rightarrow> int" where
  "diff_sign (Finite x) (Finite y) = (if x < y then -1 else if x = y then 0 else 1)"
| "diff_sign PosInfinity (Finite y) = 1"
| "diff_sign (Finite x) PosInfinity = -1"
| "diff_sign PosInfinity PosInfinity = 0"

section \<open>Array.prototype.sort\<close>

text \<open>
  \<^verbatim>\<open>Array.prototype.sort\<close> with a comparator is a stable sort: \<open>a\<close> is placed before
  \<open>b\<close> when \<open>cmp a b < 0\<close>, after it when \<open>cmp a b > 0\<close>, and elements that compare
  equal keep their input order. Stable insertion sort computes that result.
\<close>

fun insert_cmp :: "('a \<Rightarrow> 'a \<Rightarrow> int) \<Rightarrow> 'a \<Rightarrow> 'a list \<Rightarrow> 'a list" where
  "insert_cmp cmp x [] = [x]"
| "insert_cmp cmp x (y # ys) = (if cmp x y \<le> 0 then x # y # ys else y # insert_cmp cmp x ys)"

definition sort_cmp :: "('a \<Rightarrow> 'a \<Rightarrow> int) \<Rightarrow> 'a list \<Rightarrow> 'a list" where
  "sort_cmp cmp xs = foldr (insert_cmp cmp) xs []"

section \<open>Ranking engine\<close>

text \<open>
  Arithmetic on doubles: every operation of the source yields the exact result rounded
  to a double. The rounding is the parameter \<open>fl\<close>; the ordering tests of the source
  compare doubles exactly. \<open>double_0_0001\<close> is the double written \<^verbatim>\<open>0.0001\<close>.
\<close>

definition double_0_0001 :: real where
  "double_0_0001 = 7378697629483821 / 2 ^ 66"

text \<open>
  \<^verbatim>\<open>priceAdvantage_of\<close> is the body of the \<^verbatim>\<open>map\<close> callback of \<^verbatim>\<open>calculateRankings\<close>:
  the guard \<^verbatim>\<open>worstOutput > 0 && isFinite(worstOutput) && isFinite(currentOutput)\<close> is
  the first equation, every other case leaves \<^verbatim>\<open>priceAdvantage = 0\<close>.

  \<^verbatim>\<open>Math.abs(currentOutput - worstOutput) / bestOutput < 0.0001\<close>. Dividing by
  \<^verbatim>\<open>Infinity\<close> gives \<open>0\<close>; dividing by \<open>0\<close> gives \<^verbatim>\<open>Infinity\<close> or \<^verbatim>\<open>NaN\<close>, and
  the comparison is then false.
\<close>

fun small_difference :: "(real \<Rightarrow> real) \<Rightarrow> real \<Rightarrow> real \<Rightarrow> number \<Rightarrow> bool" where
  "small_difference fl c w (Finite b) =
     (if b = 0 then False else fl (\<bar>fl (c - w)\<bar> / b) < double_0_0001)"
| "small_difference fl c w PosInfinity = True"

fun priceAdvantage_of :: "(real \<Rightarrow> real) \<Rightarrow> number \<Rightarrow> number \<Rightarrow> number \<Rightarrow> real" where
  "priceAdvantage_of fl (Finite w) bestOutput (Finite c) =
     (if 0 < w then
        let pa = fl (fl (fl (c - w) / w) * 100);
            pa = min pa 1000;
            pa = max 0 pa
        in if small_difference fl c w bestOutput then 0 else pa
      else 0)"
| "priceAdvantage_of fl worstOutput bestOutput currentOutput = 0"

text \<open>The comparator \<^verbatim>\<open>(a, b) => parseFloat(b.outputAmount) - parseFloat(a.outputAmount)\<close>.\<close>

definition compare_output :: "onChainQuote \<Rightarrow> onChainQuote \<Rightarrow> int" where
  "compare_output a b = diff_sign (parseFloat (outputAmount b)) (parseFloat (outputAmount a))"

definition rankable :: "onChainQuote \<Rightarrow> bool" where
  "rankable q = (success q \<and> gt_zero (parseFloat (outputAmount q)))"

definition calculateRankings :: "(real \<Rightarrow> real) \<Rightarrow> onChainQuote list \<Rightarrow> poolRanking list" where
  "calculateRankings fl qs =
     (if length qs = 0 then []
      else
        let sortedQuotes = sort_cmp compare_output (filter rankable qs)
        in if length sortedQuotes = 0 then []
           else
             let worstOutput = parseFloat (outputAmount (sortedQuotes ! (length sortedQuotes - 1)));
                 bestOutput = parseFloat (outputAmount (sortedQuotes ! 0))
             in map (\<lambda>(index, q).
                       \<lparr>rank = index + 1, ranking_pool = pool q, quote = q,
                        priceAdvantage =
                          priceAdvantage_of fl worstOutput bestOutput (parseFloat (outputAmount q))\<rparr>)
                    (enumerate 0 sortedQuotes))"

section \<open>Rate-limited call executor\<close>

text \<open>
  A thrown JavaScript error as the executor inspects it: \<^verbatim>\<open>error?.status\<close> and
  \<^verbatim>\<open>error?.code\<close> (absent fields are \<open>None\<close>).
\<close>

record jsError =
  status :: "int option"
  code :: "string option"
  message :: string

definition retryDelays :: "nat list" where
  "retryDelays = [1000, 2000, 4000, 8000, 16000]"

definition isRateLimit :: "jsError \<Rightarrow> bool" where
  "isRateLimit e = (status e = Some 429 \<or> code e = Some ''RATE_LIMIT_EXCEEDED'')"

text \<open>
  \<^verbatim>\<open>executeWithRetry(fn, attempt)\<close>. The call \<open>fn\<close> may behave differently each time
  it is invoked, so it is a function of the attempt number: \<open>fn k\<close> is what the
  invocation made at \<^verbatim>\<open>attempt = k\<close> returns (\<open>Inr\<close>) or throws (\<open>Inl\<close>). The result
  is paired with the delays slept, in milliseconds and in order.
\<close>

function executeWithRetry :: "(nat \<Rightarrow> jsError + 'a) \<Rightarrow> nat \<Rightarrow> (jsError + 'a) \<times> nat list" where
  "executeWithRetry fn attempt =
     (case fn attempt of
        Inr v \<Rightarrow> (Inr v, [])
      | Inl e \<Rightarrow>
          if isRateLimit e \<and> attempt < length retryDelays then
            (let delay = retryDelays ! attempt;
                 (r, ds) = executeWithRetry fn (attempt + 1)
             in (r, delay # ds))
          else (Inl e, []))"
  by pat_completeness auto
termination
  by (relation "measure (\<lambda>(fn, attempt). length retryDelays - attempt)") auto

declare executeWithRetry.simps [simp del]

text \<open>
  \<^verbatim>\<open>execute(fn)\<close> queues a request that runs \<^verbatim>\<open>executeWithRetry(fn)\<close> and resolves or
  rejects the caller's promise with its outcome.
\<close>

definition execute :: "(nat \<Rightarrow> jsError + 'a) \<Rightarrow> (jsError + 'a) \<times> nat list" where
  "execute fn = executeWithRetry fn 0"

section \<open>Uniswap V3 tick alignment\<close>

definition MIN_TICK :: int where "MIN_TICK = -887272"
definition MAX_TICK :: int where "MAX_TICK = 887272"

text \<open>
  \<^verbatim>\<open>Math.round(rawTick / tickSpacing)\<close>: the quotient rounded to the nearest integer,
  halves towards \<open>+\<infinity>\<close>. For 24-bit ticks and a non-zero spacing the float quotient
  never lies within rounding distance of a half-integer it does not equal, so the
  result is \<open>\<lfloor>(2 * rawTick + tickSpacing) / (2 * tickSpacing)\<rfloor>\<close>.
\<close>

definition math_round_div :: "int \<Rightarrow> int \<Rightarrow> int" where
  "math_round_div rawTick tickSpacing = (2 * rawTick + tickSpacing) div (2 * tickSpacing)"

definition manualAlign :: "int \<Rightarrow> int \<Rightarrow> int" where
  "manualAlign rawTick tickSpacing =
     (let aligned = math_round_div rawTick tickSpacing * tickSpacing
      in max MIN_TICK (min MAX_TICK aligned))"

text \<open>
  \<^verbatim>\<open>nearestUsableTick\<close> of the package \<^verbatim>\<open>@uniswap/v3-sdk\<close>, which the quoter imports
  (\<^verbatim>\<open>utils/nearestUsableTick.ts\<close>): two invariants, on the spacing and on the tick
  (\<^verbatim>\<open>TickMath.MIN_TICK\<close> and \<^verbatim>\<open>TickMath.MAX_TICK\<close> are \<open>-887272\<close> and \<open>887272\<close>), then
  \<^verbatim>\<open>Math.round(tick / tickSpacing) * tickSpacing\<close>, moved one spacing inwards when it
  lies beyond a bound. \<open>Inl\<close> is the message of the invariant that fails; on integers
  the invariant \<^verbatim>\<open>INTEGERS\<close> holds.
\<close>

definition nearestUsableTick :: "int \<Rightarrow> int \<Rightarrow> string + int" where
  "nearestUsableTick tick tickSpacing =
     (if \<not> 0 < tickSpacing then Inl ''Invariant failed: TICK_SPACING''
      else if \<not> (MIN_TICK \<le> tick \<and> tick \<le> MAX_TICK) then Inl ''Invariant failed: TICK_BOUND''
      else
        let rounded = math_round_div tick tickSpacing * tickSpacing
        in if rounded < MIN_TICK then Inr (rounded + tickSpacing)
           else if MAX_TICK < rounded then Inr (rounded - tickSpacing)
           else Inr rounded)"

text \<open>
  The alignment step of \<^verbatim>\<open>getUniswapV3Quote\<close>: the SDK's \<^verbatim>\<open>nearestUsableTick\<close> and,
  when that throws, the manual alignment.
\<close>

definition alignTick :: "int \<Rightarrow> int \<Rightarrow> int" where
  "alignTick rawTick tickSpacing =
     (case nearestUsableTick rawTick tickSpacing of
        Inr validTick \<Rightarrow> validTick
      | Inl sdkError \<Rightarrow> manualAlign rawTick tickSpacing)"

section \<open>External collaborators\<close>

text \<open>
  What the engine reads from outside the repository's code is a parameter: the outcome
  of each on-chain call (\<open>Inl\<close> the message of the error thrown), the aggregator's HTTP
  response, and the float pipelines whose value no ranking decision reads. Console
  output and the log store are not modelled; the calls that compute what is logged are,
  because they can throw.
\<close>

text \<open>
  The errors that the library and the engine raise on the paths below: the three ways
  in which \<^verbatim>\<open>ethers.formatUnits\<close> fails, and the \<^verbatim>\<open>RangeError\<close> of
  \<^verbatim>\<open>BigInt(Infinity)\<close>. The text of their messages is the parameter \<open>faultMessage\<close>.
\<close>

datatype fault =
  DecimalsTooLarge nat
  | InvalidBigNumberish
  | NumericOverflow nat
  | BigIntOfInfinity

text \<open>
  \<^verbatim>\<open>ethers.formatUnits(value, unit)\<close> with a numeric \<open>unit\<close> is
  \<^verbatim>\<open>FixedNumber.fromValue(value, unit, {decimals: unit, width: 512}).toString()\<close>: the
  format admits at most \<open>80\<close> decimals, the value must be a \<^verbatim>\<open>BigNumberish\<close> (\<open>None\<close> is
  \<^verbatim>\<open>undefined\<close>) and must fit into \<open>512\<close> signed bits. The result stands for the decimal
  rendering of \<open>value / 10^unit\<close>.
\<close>

definition formatUnits :: "(fault \<Rightarrow> string) \<Rightarrow> nat option \<Rightarrow> nat \<Rightarrow> string + nat \<times> nat" where
  "formatUnits msg v unit =
     (if 80 < unit then Inl (msg (DecimalsTooLarge unit))
      else case v of
             None \<Rightarrow> Inl (msg InvalidBigNumberish)
           | Some n \<Rightarrow> if 2 ^ 511 \<le> n then Inl (msg (NumericOverflow n)) else Inr (n, unit))"

text \<open>Sequencing of steps that may throw: the first error ends the sequence.\<close>

definition andThen :: "'e + 'a \<Rightarrow> ('a \<Rightarrow> 'e + 'b) \<Rightarrow> 'e + 'b" where
  "andThen r f = (case r of Inl e \<Rightarrow> Inl e | Inr v \<Rightarrow> f v)"

record zeroXFill =
  fill_from :: string
  fill_to :: string
  source :: string
  proportionBps :: string

text \<open>
  The aggregator's response. Its amounts are decimal integer strings, kept as integers;
  \<open>zeroExFee_amount\<close> is \<open>None\<close> when \<^verbatim>\<open>fees?.zeroExFee?.amount\<close> is absent.
\<close>

record zeroXQuoteResponse =
  liquidityAvailable :: bool
  buyAmount :: nat
  response_sellAmount :: nat
  zeroExFee_amount :: "nat option"
  route_fills :: "zeroXFill list"
  gas :: "string option"

record zeroXProtocolInfo =
  protocol_name :: string
  percentage :: nat

record env =
  getAmountsOut :: "poolInfo \<Rightarrow> nat \<Rightarrow> string + nat list"
  uniswapV3Quote :: "poolInfo \<Rightarrow> nat \<Rightarrow> string + nat"
  uniswapV4Quote :: "poolInfo \<Rightarrow> nat \<Rightarrow> string + nat"
  curveQuote :: "poolInfo \<Rightarrow> nat \<Rightarrow> string + nat"
  fluidRealPriceImpactQuote :: "poolInfo \<Rightarrow> nat \<Rightarrow> string + nat"
  fluidLiveQuote :: "poolInfo \<Rightarrow> nat \<Rightarrow> string + nat"
  fluidVolatileEstimate :: "poolInfo \<Rightarrow> nat \<Rightarrow> nat option"
  zeroXApi_getQuote :: "tokenPair \<Rightarrow> string + zeroXQuoteResponse option"
  parseInt :: "string \<Rightarrow> int option"
  getProtocolDetails :: "zeroXProtocolInfo list \<Rightarrow> zeroXFill list \<Rightarrow> tokenPair \<Rightarrow> string"
  pow10_approx :: "nat \<Rightarrow> nat"
  faultMessage :: "fault \<Rightarrow> string"
  zeroX_now :: nat
  displayPrices :: "poolInfo \<Rightarrow> tokenPair \<Rightarrow> nat \<Rightarrow> nat \<Rightarrow> number option \<times> number option"

section \<open>Protocol quoters\<close>

text \<open>
  \<^verbatim>\<open>BigInt(10 ** d)\<close>. Up to \<open>d = 22\<close> the power \<open>10^d\<close> is a double; up to \<open>d = 308\<close>
  \<^verbatim>\<open>10 ** d\<close> is the finite double that the implementation computes near \<open>10^d\<close>, whose
  (positive) integer value is \<open>pow10_approx d\<close>; from \<open>d = 309\<close> on it is \<^verbatim>\<open>Infinity\<close>, on which
  \<^verbatim>\<open>BigInt\<close> throws a \<^verbatim>\<open>RangeError\<close>.
\<close>

definition bigint_pow10 :: "env \<Rightarrow> nat \<Rightarrow> string + nat" where
  "bigint_pow10 env d =
     (if d \<le> 22 then Inr (10 ^ d)
      else if d \<le> 308 then Inr (pow10_approx env d)
      else Inl (faultMessage env BigIntOfInfinity))"

text \<open>
  The decimal adjustment shared by the 1:1 estimates:
  \<^verbatim>\<open>decimalDiff = quote.decimals - base.decimals\<close>, multiply when positive, divide
  (bigint division) when negative.
\<close>

definition decimalAdjust :: "env \<Rightarrow> poolInfo \<Rightarrow> nat \<Rightarrow> string + nat" where
  "decimalAdjust env p amount =
     (let b = decimals (tokens_base p); q = decimals (tokens_quote p)
      in if b < q then
           (case bigint_pow10 env (q - b) of Inl e \<Rightarrow> Inl e | Inr f \<Rightarrow> Inr (amount * f))
         else if q < b then
           (case bigint_pow10 env (b - q) of Inl e \<Rightarrow> Inl e | Inr f \<Rightarrow> Inr (amount div f))
         else Inr amount)"

text \<open>
  \<^verbatim>\<open>getUniswapV2Quote\<close>: the second element of the router's \<^verbatim>\<open>getAmountsOut\<close>,
  \<^verbatim>\<open>undefined\<close> (\<open>None\<close>) when the array is shorter.
\<close>

definition getUniswapV2Quote :: "env \<Rightarrow> poolInfo \<Rightarrow> nat \<Rightarrow> string + nat option" where
  "getUniswapV2Quote env p amount =
     (case getAmountsOut env p amount of
        Inl e \<Rightarrow> Inl e
      | Inr amounts \<Rightarrow> Inr (if 1 < length amounts then Some (amounts ! 1) else None))"

text \<open>
  \<^verbatim>\<open>getBalancerQuote\<close>: the decimal-adjusted 1:1 estimate, with the two
  \<^verbatim>\<open>formatUnits\<close> calls of its log lines; its \<^verbatim>\<open>catch\<close> block computes the same
  estimate again, without them.
\<close>

definition getBalancerQuote :: "env \<Rightarrow> poolInfo \<Rightarrow> nat \<Rightarrow> string + nat" where
  "getBalancerQuote env p amount =
     (case andThen (formatUnits (faultMessage env) (Some amount) (decimals (tokens_base p)))
             (\<lambda>inputFormatted.
                andThen (decimalAdjust env p amount)
                  (\<lambda>estimatedOut.
                     andThen (formatUnits (faultMessage env) (Some estimatedOut)
                                (decimals (tokens_quote p)))
                       (\<lambda>outputFormatted. Inr estimatedOut))) of
        Inr estimatedOut \<Rightarrow> Inr estimatedOut
      | Inl e \<Rightarrow> decimalAdjust env p amount)"

subsection \<open>Fluid\<close>

text \<open>
  \<^verbatim>\<open>BigInt(Math.floor(Number(inputAmount) * rate))\<close> for the rate \<^verbatim>\<open>0.9998\<close>, which is
  also the double \<^verbatim>\<open>1 - (0.0001 + 0.0001)\<close>: \<open>2251349453722511 / 2^51\<close>. The product of
  two doubles is rounded to 53 bits; \<^verbatim>\<open>BigInt\<close> throws on \<^verbatim>\<open>Infinity\<close>.
\<close>

definition floor_times_0_9998 :: "(fault \<Rightarrow> string) \<Rightarrow> nat \<Rightarrow> string + nat" where
  "floor_times_0_9998 msg n =
     (case parseFloat n of
        PosInfinity \<Rightarrow> Inl (msg BigIntOfInfinity)
      | Finite x \<Rightarrow> Inr (round53 (round53 n * 2251349453722511) div 2 ^ 51))"

definition stablecoins :: "string list" where
  "stablecoins = [''USDC'', ''USDT'', ''DAI'', ''USDe'']"

text \<open>
  \<^verbatim>\<open>getFluidEstimatedQuote\<close>. Its first statement formats the input amount, before
  the \<^verbatim>\<open>try\<close>. The \<^verbatim>\<open>try\<close> block computes the stablecoin estimate (and formats it
  for the log line) or, for any other pair, the price-table estimate (a float pipeline,
  the parameter \<open>fluidVolatileEstimate\<close>, \<open>None\<close> when its \<^verbatim>\<open>BigInt\<close> conversion
  throws), then formats the estimate for the log entry; the \<^verbatim>\<open>catch\<close> block is the
  ``ultimate fallback''.
\<close>

definition fluidEstimate_try :: "env \<Rightarrow> poolInfo \<Rightarrow> nat \<Rightarrow> string + nat" where
  "fluidEstimate_try env p amount =
     andThen
       (if symbol (tokens_base p) \<in> set stablecoins \<and> symbol (tokens_quote p) \<in> set stablecoins then
          andThen (floor_times_0_9998 (faultMessage env) amount)
            (\<lambda>feeAdjustedAmount.
               andThen (decimalAdjust env p feeAdjustedAmount)
                 (\<lambda>estimatedOut.
                    andThen (formatUnits (faultMessage env) (Some estimatedOut)
                               (decimals (tokens_quote p)))
                      (\<lambda>logged. Inr estimatedOut)))
        else
          (case fluidVolatileEstimate env p amount of
             None \<Rightarrow> Inl (faultMessage env BigIntOfInfinity)
           | Some estimatedOut \<Rightarrow> Inr estimatedOut))
       (\<lambda>estimatedOut.
          andThen (formatUnits (faultMessage env) (Some estimatedOut) (decimals (tokens_quote p)))
            (\<lambda>outputFormatted. Inr estimatedOut))"

definition getFluidEstimatedQuote :: "env \<Rightarrow> poolInfo \<Rightarrow> nat \<Rightarrow> string + nat" where
  "getFluidEstimatedQuote env p amount =
     andThen (formatUnits (faultMessage env) (Some amount) (decimals (tokens_base p)))
       (\<lambda>inputFormatted.
          case fluidEstimate_try env p amount of
            Inr estimatedOut \<Rightarrow> Inr estimatedOut
          | Inl e \<Rightarrow>
              andThen (floor_times_0_9998 (faultMessage env) amount)
                (\<lambda>basicAmount. decimalAdjust env p basicAmount))"

text \<open>\<^verbatim>\<open>String.prototype.toLowerCase\<close> on ASCII text.\<close>

definition lower_char :: "char \<Rightarrow> char" where
  "lower_char c =
     (case map_of (zip ''ABCDEFGHIJKLMNOPQRSTUVWXYZ'' ''abcdefghijklmnopqrstuvwxyz'') c of
        Some l \<Rightarrow> l
      | None \<Rightarrow> c)"

definition toLowerCase :: "string \<Rightarrow> string" where
  "toLowerCase s = map lower_char s"

datatype fluidMethod = RealPriceImpact | LiveQuote | EstimationFallback

text \<open>
  \<^verbatim>\<open>getFluidQuote\<close>, returning with the quote the methods it called, in order.
  \<open>RealPriceImpact\<close> is \<^verbatim>\<open>getFluidRealPriceImpactQuote\<close> (reserves and price range),
  \<open>LiveQuote\<close> is \<^verbatim>\<open>getFluidLiveQuote\<close> (the \<^verbatim>\<open>swapIn\<close> simulation that reverts with
  \<^verbatim>\<open>FluidDexSwapResult\<close>). Its first statement formats the input amount, before the
  \<^verbatim>\<open>try\<close>: when that throws no method is called. When the estimation throws, the outer
  \<^verbatim>\<open>catch\<close> calls it once more.
\<close>

definition estimation_with_catch ::
  "env \<Rightarrow> poolInfo \<Rightarrow> nat \<Rightarrow> fluidMethod list \<Rightarrow> (string + nat) \<times> fluidMethod list" where
  "estimation_with_catch env p amount called =
     (case getFluidEstimatedQuote env p amount of
        Inr v \<Rightarrow> (Inr v, called @ [EstimationFallback])
      | Inl e \<Rightarrow> (getFluidEstimatedQuote env p amount,
                  called @ [EstimationFallback, EstimationFallback]))"

definition getFluidQuote :: "env \<Rightarrow> poolInfo \<Rightarrow> nat \<Rightarrow> (string + nat) \<times> fluidMethod list" where
  "getFluidQuote env p amount =
     (case formatUnits (faultMessage env) (Some amount) (decimals (tokens_base p)) of
        Inl e \<Rightarrow> (Inl e, [])
      | Inr inputFormatted \<Rightarrow>
          let addressMatch =
                (toLowerCase (pool_address p) = ''0xf063bd202e45d6b2843102cb4ece339026645d4a'');
              baseSymbolMatch = (symbol (tokens_base p) = ''USDe'');
              quoteSymbolMatch = (symbol (tokens_quote p) = ''USDT'')
          in if addressMatch \<and> baseSymbolMatch \<and> quoteSymbolMatch then
               (case fluidRealPriceImpactQuote env p amount of
                  Inr v \<Rightarrow> (Inr v, [RealPriceImpact])
                | Inl priceImpactError \<Rightarrow>
                    (case fluidLiveQuote env p amount of
                       Inr v \<Rightarrow> (Inr v, [RealPriceImpact, LiveQuote])
                     | Inl liveQuoteError \<Rightarrow>
                         estimation_with_catch env p amount [RealPriceImpact, LiveQuote]))
             else estimation_with_catch env p amount [])"

subsection \<open>External aggregator (ZeroX)\<close>

text \<open>
  \<^verbatim>\<open>extractProtocolInfo\<close>. The \<^verbatim>\<open>Map\<close> from source to summed basis points keeps its
  keys in insertion order, so it is an association list; \<^verbatim>\<open>parseInt(s) || 0\<close> is \<open>0\<close>
  when \<^verbatim>\<open>parseInt\<close> gives \<^verbatim>\<open>NaN\<close>; \<^verbatim>\<open>Math.round(totalBps / 100)\<close> on a positive
  integer is \<open>(totalBps + 50) div 100\<close>.
\<close>

fun map_add_bps :: "string \<Rightarrow> nat \<Rightarrow> (string \<times> nat) list \<Rightarrow> (string \<times> nat) list" where
  "map_add_bps k v [] = [(k, v)]"
| "map_add_bps k v ((k', v') # m) =
     (if k = k' then (k', v' + v) # m else (k', v') # map_add_bps k v m)"

definition fill_bps :: "env \<Rightarrow> zeroXFill \<Rightarrow> int" where
  "fill_bps env fill = (case parseInt env (proportionBps fill) of None \<Rightarrow> 0 | Some n \<Rightarrow> n)"

fun collect_fills :: "env \<Rightarrow> zeroXFill list \<Rightarrow> (string \<times> nat) list \<Rightarrow> (string \<times> nat) list" where
  "collect_fills env [] m = m"
| "collect_fills env (fill # fills) m =
     (if source fill \<noteq> [] \<and> proportionBps fill \<noteq> [] \<and> 0 < fill_bps env fill
      then collect_fills env fills (map_add_bps (source fill) (nat (fill_bps env fill)) m)
      else collect_fills env fills m)"

definition extractProtocolInfo :: "env \<Rightarrow> zeroXFill list \<Rightarrow> zeroXProtocolInfo list" where
  "extractProtocolInfo env fills =
     (if length fills = 0 then []
      else
        let protocolMap = collect_fills env fills []
        in if length protocolMap = 0 then []
           else sort_cmp (\<lambda>a b. int (percentage b) - int (percentage a))
                  (map (\<lambda>(src, totalBps).
                          \<lparr>protocol_name = src, percentage = (totalBps + 50) div 100\<rparr>)
                       protocolMap))"

text \<open>
  \<^verbatim>\<open>calculateNetQuoteAmount\<close>. The fee is absent (\<open>None\<close>) or an amount; on integer
  amounts \<^verbatim>\<open>ethers.getBigInt\<close> does not throw, so the \<^verbatim>\<open>catch\<close> block (which returns
  \<^verbatim>\<open>buyAmount\<close>) has no case here.
\<close>

definition calculateNetQuoteAmount :: "nat \<Rightarrow> nat option \<Rightarrow> nat" where
  "calculateNetQuoteAmount buyAmt zeroExFeeAmount =
     (case zeroExFeeAmount of
        None \<Rightarrow> buyAmt
      | Some feeAmount \<Rightarrow> if feeAmount = 0 then buyAmt else buyAmt + feeAmount)"

text \<open>
  The prefix of every formatted protocol name, as the source file holds it: the four
  characters U+00F0, U+0178, U+201D, U+20AC in UTF-8, and a space.
\<close>

definition shuffle_prefix :: string where
  "shuffle_prefix =
     [CHR 0xC3, CHR 0xB0, CHR 0xC5, CHR 0xB8, CHR 0xE2, CHR 0x80, CHR 0x9D,
      CHR 0xE2, CHR 0x82, CHR 0xAC, CHR '' '']"

definition formatProtocolName :: "zeroXProtocolInfo list \<Rightarrow> string" where
  "formatProtocolName protocols =
     (if length protocols = 0 then shuffle_prefix @ ''Unknown via Matcha''
      else if length protocols = 1 then
        shuffle_prefix @ protocol_name (protocols ! 0) @ '' via Matcha''
      else if length protocols = 2 then
        shuffle_prefix @ protocol_name (protocols ! 0) @ ''+'' @ protocol_name (protocols ! 1)
          @ '' via Matcha''
      else shuffle_prefix @ ''Matcha via aggregation'')"

record zeroXQuoteResult =
  result_quote :: onChainQuote
  protocols :: "zeroXProtocolInfo list"
  totalFillCount :: nat
  result_protocolDetails :: string

text \<open>
  \<^verbatim>\<open>getZeroXQuote\<close>; \<open>None\<close> is \<^verbatim>\<open>null\<close>, \<open>zeroX_now\<close> the value of \<^verbatim>\<open>Date.now()\<close>.
\<close>

definition getZeroXQuote :: "env \<Rightarrow> tokenPair \<Rightarrow> zeroXQuoteResult option" where
  "getZeroXQuote env tp =
     (case zeroXApi_getQuote env tp of
        Inl e \<Rightarrow> None
      | Inr None \<Rightarrow> None
      | Inr (Some zeroXResponse) \<Rightarrow>
          if \<not> liquidityAvailable zeroXResponse then None
          else
            let protocols = extractProtocolInfo env (route_fills zeroXResponse)
            in if length protocols = 0 then None
               else
                 let zeroExFeeAmount =
                       (case zeroExFee_amount zeroXResponse of None \<Rightarrow> 0 | Some a \<Rightarrow> a);
                     netBuyAmount =
                       calculateNetQuoteAmount (buyAmount zeroXResponse) (Some zeroExFeeAmount);
                     protocolName = formatProtocolName protocols;
                     poolInfo =
                       \<lparr>pool_address = ''zeroX-aggregator-'' @ pair_id tp,
                        pool_name = protocolName,
                        dex = protocolName,
                        network = ''ethereum'',
                        tokens_base = sellToken tp,
                        tokens_quote = buyToken tp,
                        fee_tier = Some ''variable''\<rparr>;
                     q =
                       \<lparr>pool = poolInfo,
                        inputAmount = response_sellAmount zeroXResponse,
                        outputAmount = netBuyAmount,
                        pricePerToken = Some (Finite 0),
                        gasEstimate =
                          Some (case gas zeroXResponse of
                                  None \<Rightarrow> ''0''
                                | Some g \<Rightarrow> if g = [] then ''0'' else g),
                        executionPrice = Some (Finite 0),
                        timestamp = zeroX_now env,
                        success = True,
                        error = None,
                        protocolDetails = None\<rparr>
                 in Some \<lparr>result_quote = q,
                          protocols = protocols,
                          totalFillCount = length (route_fills zeroXResponse),
                          result_protocolDetails =
                            getProtocolDetails env protocols (route_fills zeroXResponse) tp\<rparr>)"

section \<open>Quote normalizer\<close>

text \<open>
  \<^verbatim>\<open>getQuoteForPoolWithAmount\<close>. In the \<^verbatim>\<open>try\<close> block the quoter is chosen by
  \<^verbatim>\<open>pool.dex\<close> and the input and output amounts are formatted for the display prices
  and the log; the aggregator's quote is returned as it is. The \<^verbatim>\<open>catch\<close> block
  formats the input amount for the log and returns a failed quote with the message of
  what was thrown; when that formatting throws, the function throws. \<open>startTime\<close> is
  \<^verbatim>\<open>Date.now()\<close> at entry; \<open>getQuoteForPool_try\<close> is the \<^verbatim>\<open>try\<close> block.
\<close>

definition failedQuote :: "poolInfo \<Rightarrow> nat \<Rightarrow> nat \<Rightarrow> string \<Rightarrow> onChainQuote" where
  "failedQuote p amount time msg =
     \<lparr>pool = p, inputAmount = amount, outputAmount = 0,
      pricePerToken = Some (Finite 0), gasEstimate = None, executionPrice = Some (Finite 0),
      timestamp = time, success = False, error = Some msg, protocolDetails = None\<rparr>"

definition successQuote :: "env \<Rightarrow> poolInfo \<Rightarrow> tokenPair \<Rightarrow> nat \<Rightarrow> nat \<Rightarrow> nat \<Rightarrow> onChainQuote" where
  "successQuote env p tp amount out time =
     \<lparr>pool = p, inputAmount = amount, outputAmount = out,
      pricePerToken = fst (displayPrices env p tp amount out), gasEstimate = None,
      executionPrice = snd (displayPrices env p tp amount out),
      timestamp = time, success = True, error = None, protocolDetails = None\<rparr>"

text \<open>The \<^verbatim>\<open>switch\<close> over the quoters that return an amount (\<open>None\<close> is \<^verbatim>\<open>undefined\<close>).\<close>

definition quoterFor :: "env \<Rightarrow> poolInfo \<Rightarrow> nat \<Rightarrow> string + nat option" where
  "quoterFor env p amount =
     (if dex p = ''uniswap_v2'' \<or> dex p = ''sushiswap'' then getUniswapV2Quote env p amount
      else if dex p = ''uniswap_v3'' then andThen (uniswapV3Quote env p amount) (\<lambda>v. Inr (Some v))
      else if dex p = ''uniswap_v4'' then andThen (uniswapV4Quote env p amount) (\<lambda>v. Inr (Some v))
      else if dex p = ''curve'' then andThen (curveQuote env p amount) (\<lambda>v. Inr (Some v))
      else if dex p = ''balancer'' then andThen (getBalancerQuote env p amount) (\<lambda>v. Inr (Some v))
      else if dex p = ''fluid'' then andThen (fst (getFluidQuote env p amount)) (\<lambda>v. Inr (Some v))
      else Inl (''Unsupported DEX: '' @ dex p))"

definition getQuoteForPool_try ::
  "env \<Rightarrow> nat \<Rightarrow> poolInfo \<Rightarrow> nat \<Rightarrow> tokenPair \<Rightarrow> string + onChainQuote" where
  "getQuoteForPool_try env startTime p amount tp =
     (if dex p = ''zerox'' then
        (case getZeroXQuote env tp of
           None \<Rightarrow> Inl ''ZeroX quote failed''
         | Some zeroXResult \<Rightarrow>
             Inr ((result_quote zeroXResult)
                    \<lparr>protocolDetails := Some (result_protocolDetails zeroXResult)\<rparr>))
      else
        andThen (quoterFor env p amount)
          (\<lambda>outputAmount.
             andThen (formatUnits (faultMessage env) (Some amount) (decimals (tokens_base p)))
               (\<lambda>inputAmountFormatted.
                  andThen (formatUnits (faultMessage env) outputAmount (decimals (tokens_quote p)))
                    (\<lambda>(out, unit). Inr (successQuote env p tp amount out startTime)))))"

definition getQuoteForPoolWithAmount ::
  "env \<Rightarrow> nat \<Rightarrow> poolInfo \<Rightarrow> nat \<Rightarrow> tokenPair \<Rightarrow> string + onChainQuote" where
  "getQuoteForPoolWithAmount env startTime p amount tp =
     (case getQuoteForPool_try env startTime p amount tp of
        Inr q \<Rightarrow> Inr q
      | Inl msg \<Rightarrow>
          andThen (formatUnits (faultMessage env) (Some amount) (decimals (tokens_base p)))
            (\<lambda>inputFormatted. Inr (failedQuote p amount startTime msg)))"

section \<open>Simulation orchestrator\<close>

text \<open>
  The loop of \<^verbatim>\<open>simulateSwapsWithAmount\<close> over the pools, pushing one quote per
  iteration onto \<open>acc\<close>. \<open>getQuote i p\<close> is the outcome of the call for the pool at
  position \<open>i\<close> (\<open>Inl\<close> the message of what it throws), \<open>failTime i\<close> the value of
  \<^verbatim>\<open>Date.now()\<close> in the \<^verbatim>\<open>catch\<close> block.

  \<open>simulateWith\<close> is \<^verbatim>\<open>simulateSwapsWithAmount\<close> for an arbitrary per-pool call: it
  formats the input amount for its first log line, outside any \<^verbatim>\<open>try\<close>, runs the loop
  and ranks the successful quotes. \<open>Inl\<close> is the message of the error it throws.
\<close>

fun collectQuotes ::
  "(nat \<Rightarrow> poolInfo \<Rightarrow> string + onChainQuote) \<Rightarrow> (nat \<Rightarrow> nat) \<Rightarrow> nat \<Rightarrow> poolInfo list
     \<Rightarrow> onChainQuote list \<Rightarrow> onChainQuote list" where
  "collectQuotes getQuote failTime amount [] acc = acc"
| "collectQuotes getQuote failTime amount (p # ps) acc =
     collectQuotes getQuote failTime amount ps
       (acc @ [case getQuote (length acc) p of
                 Inr q \<Rightarrow> q
               | Inl msg \<Rightarrow> failedQuote p amount (failTime (length acc)) msg])"

definition simulateWith ::
  "(fault \<Rightarrow> string) \<Rightarrow> (nat \<Rightarrow> poolInfo \<Rightarrow> string + onChainQuote) \<Rightarrow> (real \<Rightarrow> real)
     \<Rightarrow> (nat \<Rightarrow> nat) \<Rightarrow> poolInfo list \<Rightarrow> nat \<Rightarrow> tokenPair \<Rightarrow> string + swapSimulation" where
  "simulateWith msg getQuote fl failTime pools amount tp =
     andThen (formatUnits msg (Some amount) (decimals (sellToken tp)))
       (\<lambda>inputFormatted.
          let qs = collectQuotes getQuote failTime amount pools [];
              successfulQuotes = filter success qs;
              rs = calculateRankings fl successfulQuotes;
              best = (if 0 < length rs then Some (quote (rs ! 0)) else None)
          in Inr \<lparr>quotes = qs, bestQuote = best, rankings = rs\<rparr>)"

definition simulateSwapsWithAmount ::
  "env \<Rightarrow> (real \<Rightarrow> real) \<Rightarrow> (nat \<Rightarrow> nat) \<Rightarrow> (nat \<Rightarrow> nat) \<Rightarrow> poolInfo list \<Rightarrow> nat \<Rightarrow> tokenPair
     \<Rightarrow> string + swapSimulation" where
  "simulateSwapsWithAmount env fl startTime failTime pools amount tp =
     simulateWith (faultMessage env)
       (\<lambda>i p. getQuoteForPoolWithAmount env (startTime i) p amount tp)
       fl failTime pools amount tp"

section \<open>Auxiliary notions for the statements\<close>

text \<open>
  \<open>rateLimited fn j\<close>: the invocation at attempt \<open>j\<close> throws a rate-limit error.
  \<open>settles fn k\<close>: the invocation at attempt \<open>k\<close> ends the retry loop.
\<close>

definition rateLimited :: "(nat \<Rightarrow> jsError + 'a) \<Rightarrow> nat \<Rightarrow> bool" where
  "rateLimited fn j = (case fn j of Inl e \<Rightarrow> isRateLimit e | Inr v \<Rightarrow> False)"

definition settles :: "(nat \<Rightarrow> jsError + 'a) \<Rightarrow> nat \<Rightarrow> bool" where
  "settles fn k =
     (case fn k of Inl e \<Rightarrow> \<not> isRateLimit e \<or> length retryDelays \<le> k | Inr v \<Rightarrow> True)"

text \<open>The quote pushed for the pool at position \<open>i\<close>.\<close>

definition quoteOrFailed ::
  "(nat \<Rightarrow> poolInfo \<Rightarrow> string + onChainQuote) \<Rightarrow> (nat \<Rightarrow> nat) \<Rightarrow> nat \<Rightarrow> nat \<Rightarrow> poolInfo
     \<Rightarrow> onChainQuote" where
  "quoteOrFailed getQuote failTime amount i p =
     (case getQuote i p of Inr q \<Rightarrow> q | Inl msg \<Rightarrow> failedQuote p amount (failTime i) msg)"

text \<open>
  The quotes \<^verbatim>\<open>calculateRankings\<close> ranks, in ranking order, and the entry it builds for the
  quote at position \<open>index\<close> of that list \<open>s\<close>.
\<close>

definition sortedQuotes :: "onChainQuote list \<Rightarrow> onChainQuote list" where
  "sortedQuotes qs = sort_cmp compare_output (filter rankable qs)"

definition makeRanking ::
  "(real \<Rightarrow> real) \<Rightarrow> onChainQuote list \<Rightarrow> nat \<times> onChainQuote \<Rightarrow> poolRanking" where
  "makeRanking fl s =
     (\<lambda>(index, q).
        \<lparr>rank = index + 1, ranking_pool = pool q, quote = q,
         priceAdvantage =
           priceAdvantage_of fl (parseFloat (outputAmount (s ! (length s - 1))))
             (parseFloat (outputAmount (s ! 0))) (parseFloat (outputAmount q))\<rparr>)"

text \<open>\<open>x \<le> y\<close> on doubles, as the comparator decides it.\<close>

definition double_le :: "number \<Rightarrow> number \<Rightarrow> bool" where
  "double_le x y = (diff_sign x y \<le> 0)"

text \<open>The routing condition of \<^verbatim>\<open>getFluidQuote\<close>.\<close>

definition isFluidTarget :: "poolInfo \<Rightarrow> bool" where
  "isFluidTarget p =
     (toLowerCase (pool_address p) = ''0xf063bd202e45d6b2843102cb4ece339026645d4a''
      \<and> symbol (tokens_base p) = ''USDe'' \<and> symbol (tokens_quote p) = ''USDT'')"

section \<open>Concrete inputs\<close>

text \<open>A call that is rate-limited twice and then returns \<open>42\<close>.\<close>

definition busyTwice :: "nat \<Rightarrow> jsError + nat" where
  "busyTwice j =
     (if j < 2 then Inl \<lparr>status = Some 429, code = None, message = ''Too Many Requests''\<rparr>
      else Inr 42)"

definition usde :: tokenInfo where
  "usde = \<lparr>address = ''0x4c9EDD5852cd905f086C759E8383e09bff1E68B3'', symbol = ''USDe'', decimals = 18\<rparr>"

definition usdt :: tokenInfo where
  "usdt = \<lparr>address = ''0xdAC17F958D2ee523a2206206994597C13D831ec7'', symbol = ''USDT'', decimals = 6\<rparr>"

definition usdePair :: tokenPair where
  "usdePair = \<lparr>pair_id = ''usde-usdt'', pair_name = ''USDe -> USDT'', sellToken = usde,
               buyToken = usdt, sellAmount = ''1''\<rparr>"

definition poolOn :: "string \<Rightarrow> string \<Rightarrow> poolInfo" where
  "poolOn d a = \<lparr>pool_address = a, pool_name = ''USDe / USDT'', dex = d, network = ''eth'',
                 tokens_base = usde, tokens_quote = usdt, fee_tier = None\<rparr>"

text \<open>
  Message texts for the concrete inputs: the first words of the messages of the library
  (which appends the arguments and its version) and of the engine.
\<close>

fun faultText :: "fault \<Rightarrow> string" where
  "faultText (DecimalsTooLarge d) = ''invalid FixedNumber decimals (too large)''"
| "faultText InvalidBigNumberish = ''invalid BigNumberish value''"
| "faultText (NumericOverflow n) = ''overflow''"
| "faultText BigIntOfInfinity = ''The number Infinity cannot be converted to a BigInt''"

text \<open>An environment in which every on-chain call and the aggregator fail.\<close>

definition offlineEnv :: env where
  "offlineEnv =
     \<lparr>getAmountsOut = (\<lambda>p a. Inl ''network error''),
      uniswapV3Quote = (\<lambda>p a. Inl ''network error''),
      uniswapV4Quote = (\<lambda>p a. Inl ''network error''),
      curveQuote = (\<lambda>p a. Inl ''network error''),
      fluidRealPriceImpactQuote = (\<lambda>p a. Inl ''network error''),
      fluidLiveQuote = (\<lambda>p a. Inl ''network error''),
      fluidVolatileEstimate = (\<lambda>p a. None),
      zeroXApi_getQuote = (\<lambda>tp. Inl ''network error''),
      parseInt = (\<lambda>s. None),
      getProtocolDetails = (\<lambda>ps fs tp. []),
      pow10_approx = (\<lambda>d. 10 ^ d),
      faultMessage = faultText,
      zeroX_now = 0,
      displayPrices = (\<lambda>p tp a b. (None, None))\<rparr>"

definition v2Pool :: poolInfo where
  "v2Pool = poolOn ''uniswap_v2'' ''0x0d4a11d5EEaaC28EC3F61d100daF4d40471f1852''"

definition balancerPool :: poolInfo where
  "balancerPool = poolOn ''balancer'' ''0x32296969Ef14EB0c6d29669C550D4a0449130230''"

text \<open>A rounding that changes nothing, and a clock that stands still.\<close>

definition noRounding :: "real \<Rightarrow> real" where
  "noRounding x = x"

definition clock0 :: "nat \<Rightarrow> nat" where
  "clock0 i = 0"

text \<open>A successful quote with the given output amount.\<close>

definition quoteOf :: "nat \<Rightarrow> onChainQuote" where
  "quoteOf out =
     \<lparr>pool = poolOn ''uniswap_v3'' ''0x11b815efB8f581194ae79006d24E0d814B7697F6'',
      inputAmount = 1, outputAmount = out,
      pricePerToken = None, gasEstimate = None, executionPrice = None,
      timestamp = 0, success = True, error = None, protocolDetails = None\<rparr>"

definition closePair :: "onChainQuote list" where
  "closePair = [quoteOf 1000050, quoteOf 1000000]"

definition tiePair :: "onChainQuote list" where
  "tiePair = [quoteOf 1000000000000000000, quoteOf 1000000000000000001]"

text \<open>Two successful quotes of different pools with the same output amount.\<close>

definition firstSeen :: onChainQuote where
  "firstSeen = (quoteOf 500)\<lparr>pool := v2Pool\<rparr>"

definition secondSeen :: onChainQuote where
  "secondSeen = (quoteOf 500)\<lparr>pool := balancerPool\<rparr>"

text \<open>A per-pool call returning \<open>10^18 + i\<close> for the pool at position \<open>i\<close>.\<close>

definition risingQuotes :: "nat \<Rightarrow> poolInfo \<Rightarrow> string + onChainQuote" where
  "risingQuotes i p = Inr (quoteOf (1000000000000000000 + i))"

definition fluidTargetPool :: poolInfo where
  "fluidTargetPool = poolOn ''fluid'' ''0xf063BD202E45d6b2843102cb4EcE339026645D4a''"

definition fluidOtherPool :: poolInfo where
  "fluidOtherPool = poolOn ''fluid'' ''0x0B1a513ee24972DAEf112bC777a5610d4325C9e7''"

text \<open>An environment in which both on-chain Fluid strategies answer.\<close>

definition fluidOnlineEnv :: env where
  "fluidOnlineEnv =
     offlineEnv\<lparr>fluidRealPriceImpactQuote := (\<lambda>p a. Inr 100), fluidLiveQuote := (\<lambda>p a. Inr 200)\<rparr>"

definition sampleResponse :: zeroXQuoteResponse where
  "sampleResponse =
     \<lparr>liquidityAvailable = True, buyAmount = 1000, response_sellAmount = 1,
      zeroExFee_amount = Some 5,
      route_fills = [\<lparr>fill_from = ''0x4c9EDD5852cd905f086C759E8383e09bff1E68B3'',
                      fill_to = ''0xdAC17F958D2ee523a2206206994597C13D831ec7'',
                      source = ''Uniswap_V3'', proportionBps = ''10000''\<rparr>],
      gas = Some ''210000''\<rparr>"

definition zeroXEnv :: env where
  "zeroXEnv =
     offlineEnv\<lparr>zeroXApi_getQuote := (\<lambda>tp. Inr (Some sampleResponse)),
                parseInt := (\<lambda>s. if s = ''10000'' then Some 10000 else None)\<rparr>"

definition zeroXPool :: poolInfo where
  "zeroXPool = poolOn ''zerox'' ''zerox-aggregator''"

section \<open>The stable sort\<close>

lemma mset_insert_cmp: "mset (insert_cmp cmp x xs) = add_mset x (mset xs)"
  by (induction xs) auto

lemma mset_sort_cmp: "mset (sort_cmp cmp xs) = mset xs"
  by (induction xs) (auto simp: sort_cmp_def mset_insert_cmp)

lemma set_sort_cmp: "set (sort_cmp cmp xs) = set xs"
  using mset_sort_cmp [of cmp xs] by (metis set_mset_mset)

lemma set_insert_cmp: "set (insert_cmp cmp x xs) = insert x (set xs)"
  by (induction xs) auto

lemma sorted_insert_cmp:
  assumes tot: "\<And>a b. 0 < cmp a b \<Longrightarrow> cmp b a \<le> 0"
    and tr: "\<And>a b c. cmp a b \<le> 0 \<Longrightarrow> cmp b c \<le> 0 \<Longrightarrow> cmp a c \<le> 0"
  shows "sorted_wrt (\<lambda>a b. cmp a b \<le> 0) xs \<Longrightarrow>
         sorted_wrt (\<lambda>a b. cmp a b \<le> 0) (insert_cmp cmp x xs)"
proof (induction xs)
  case Nil
  then show ?case by simp
next
  case (Cons y ys)
  show ?case
  proof (cases "cmp x y \<le> 0")
    case True
    with Cons.prems show ?thesis using tr by auto
  next
    case False
    then have "cmp y x \<le> 0" using tot [of x y] by simp
    with False Cons show ?thesis by (auto simp: set_insert_cmp)
  qed
qed

lemma sorted_sort_cmp:
  assumes tot: "\<And>a b. 0 < cmp a b \<Longrightarrow> cmp b a \<le> 0"
    and tr: "\<And>a b c. cmp a b \<le> 0 \<Longrightarrow> cmp b c \<le> 0 \<Longrightarrow> cmp a c \<le> 0"
  shows "sorted_wrt (\<lambda>a b. cmp a b \<le> 0) (sort_cmp cmp xs)"
proof (induction xs)
  case Nil
  then show ?case by (simp add: sort_cmp_def)
next
  case (Cons x xs)
  have "sort_cmp cmp (x # xs) = insert_cmp cmp x (sort_cmp cmp xs)"
    by (simp add: sort_cmp_def)
  with Cons show ?case using sorted_insert_cmp [of cmp, OF tot tr] by simp
qed

text \<open>Stability: elements that compare equal keep their order.\<close>

lemma filter_insert_cmp:
  assumes eq: "\<And>a b. P a \<Longrightarrow> P b \<Longrightarrow> cmp a b \<le> 0"
  shows "filter P (insert_cmp cmp x xs) = (if P x then x # filter P xs else filter P xs)"
  using eq by (induction xs) auto

lemma filter_sort_cmp:
  assumes eq: "\<And>a b. P a \<Longrightarrow> P b \<Longrightarrow> cmp a b \<le> 0"
  shows "filter P (sort_cmp cmp xs) = filter P xs"
proof (induction xs)
  case Nil
  then show ?case by (simp add: sort_cmp_def)
next
  case (Cons x xs)
  have "sort_cmp cmp (x # xs) = insert_cmp cmp x (sort_cmp cmp xs)"
    by (simp add: sort_cmp_def)
  with Cons show ?case using filter_insert_cmp [of P cmp, OF eq] by simp
qed

lemma diff_sign_total: "0 < diff_sign x y \<Longrightarrow> diff_sign y x \<le> 0"
  by (cases x; cases y) (auto split: if_splits)

lemma diff_sign_trans: "diff_sign x y \<le> 0 \<Longrightarrow> diff_sign y z \<le> 0 \<Longrightarrow> diff_sign x z \<le> 0"
  by (cases x; cases y; cases z) (auto split: if_splits)

lemma diff_sign_refl: "diff_sign x x = 0"
  by (cases x) auto

lemma sorted_compare_output:
  "sorted_wrt (\<lambda>a b. compare_output a b \<le> 0) (sort_cmp compare_output xs)"
  by (rule sorted_sort_cmp) (auto simp: compare_output_def intro: diff_sign_total diff_sign_trans)

lemma double_le_Finite: "double_le (Finite x) (Finite y) \<longleftrightarrow> x \<le> y"
  by (simp add: double_le_def)

lemma double_le_refl: "double_le x x"
  by (simp add: double_le_def diff_sign_refl)

lemma double_le_antisym: "double_le x y \<Longrightarrow> double_le y x \<Longrightarrow> x = y"
  by (cases x; cases y) (auto simp: double_le_def split: if_splits)

section \<open>Rounding to a double\<close>

lemma bitlength_upper: "n < (2::nat) ^ bitlength n"
proof (induction n rule: bitlength.induct)
  case (1 n)
  show ?case
  proof (cases "n = 0")
    case True
    then show ?thesis by (simp add: bitlength.simps)
  next
    case False
    then have "n div 2 < 2 ^ bitlength (n div 2)" using 1 by simp
    then have "n < 2 * 2 ^ bitlength (n div 2)" by linarith
    then show ?thesis using False by (subst bitlength.simps) simp
  qed
qed

lemma bitlength_lower: "0 < n \<Longrightarrow> (2::nat) ^ (bitlength n - 1) \<le> n"
proof (induction n rule: bitlength.induct)
  case (1 n)
  show ?case
  proof (cases "n div 2 = 0")
    case True
    then have "n = 1" using "1.prems" by linarith
    then show ?thesis by (simp add: bitlength.simps)
  next
    case False
    then have IH: "2 ^ (bitlength (n div 2) - 1) \<le> n div 2" using 1 by simp
    have pos: "0 < bitlength (n div 2)" using False by (subst bitlength.simps) simp
    have "bitlength n = Suc (bitlength (n div 2))" using "1.prems" by (subst bitlength.simps) simp
    then have "(2::nat) ^ (bitlength n - 1) = 2 * 2 ^ (bitlength (n div 2) - 1)"
      using pos by (cases "bitlength (n div 2)") simp_all
    then show ?thesis using IH by linarith
  qed
qed

lemma bitlength_mono: "m \<le> n \<Longrightarrow> bitlength m \<le> bitlength n"
proof (rule ccontr)
  assume le: "m \<le> n" and "\<not> bitlength m \<le> bitlength n"
  then have lt: "bitlength n < bitlength m" by simp
  then have "0 < m" by (cases "m = 0") (simp_all add: bitlength.simps)
  then have "(2::nat) ^ (bitlength m - 1) \<le> m" by (rule bitlength_lower)
  moreover have "(2::nat) ^ bitlength n \<le> 2 ^ (bitlength m - 1)"
    by (rule power_increasing) (use lt in simp_all)
  moreover have "n < 2 ^ bitlength n" by (rule bitlength_upper)
  ultimately show False using le by linarith
qed

lemma bitlength_ge54: "2 ^ 53 \<le> n \<Longrightarrow> 54 \<le> bitlength n"
proof (rule ccontr)
  assume a: "2 ^ 53 \<le> n" and "\<not> 54 \<le> bitlength n"
  then have "bitlength n \<le> 53" by simp
  then have "(2::nat) ^ bitlength n \<le> 2 ^ 53" by (rule power_increasing) simp
  with bitlength_upper [of n] a show False by linarith
qed

lemma bitlength_le:
  assumes "n < 2 ^ k" shows "bitlength n \<le> k"
proof (cases "n = 0")
  case True
  then show ?thesis by (simp add: bitlength.simps)
next
  case False
  then have "(2::nat) ^ (bitlength n - 1) \<le> n" by (intro bitlength_lower) simp
  then have "(2::nat) ^ (bitlength n - 1) < 2 ^ k" using assms by linarith
  then have "bitlength n - 1 < k" by (simp only: power_strict_increasing_iff)
  then show ?thesis by simp
qed

text \<open>For \<open>n \<ge> 2^53\<close> and \<open>e = bitlength n - 53\<close>: \<open>2^(52+e) \<le> n < 2^(53+e)\<close>.\<close>

lemma round53_range:
  assumes "2 ^ 53 \<le> n"
  defines "e \<equiv> bitlength n - 53"
  shows "2 ^ (52 + e) \<le> n" and "n < 2 ^ (53 + e)"
proof -
  have b: "54 \<le> bitlength n" using assms(1) by (rule bitlength_ge54)
  have pos: "0 < n" using assms(1) by (cases "n = 0") simp_all
  have "52 + e = bitlength n - 1" "53 + e = bitlength n" using b by (simp_all add: e_def)
  then show "2 ^ (52 + e) \<le> n" and "n < 2 ^ (53 + e)"
    using bitlength_lower [OF pos] bitlength_upper [of n] by simp_all
qed

lemma round53_between:
  assumes "2 ^ 53 \<le> n"
  defines "e \<equiv> bitlength n - 53"
  shows "n div 2 ^ e * 2 ^ e \<le> round53 n" and "round53 n \<le> (n div 2 ^ e + 1) * 2 ^ e"
  using assms(1) by (simp_all add: round53_def Let_def e_def)

section \<open>Rate-limited call executor: retries\<close>

lemma executeWithRetry_settles:
  "settles fn k \<Longrightarrow> executeWithRetry fn k = (fn k, [])"
  by (subst executeWithRetry.simps) (auto simp: settles_def split: sum.splits)

lemma executeWithRetry_step:
  "rateLimited fn a \<Longrightarrow> a < length retryDelays \<Longrightarrow>
   executeWithRetry fn a =
     (fst (executeWithRetry fn (Suc a)), retryDelays ! a # snd (executeWithRetry fn (Suc a)))"
  by (subst executeWithRetry.simps) (auto simp: rateLimited_def split: sum.splits prod.splits)

lemma executeWithRetry_run:
  assumes "a \<le> k" and "k \<le> length retryDelays"
    and "\<forall>j. a \<le> j \<and> j < k \<longrightarrow> rateLimited fn j" and "settles fn k"
  shows "executeWithRetry fn a = (fn k, drop a (take k retryDelays))"
  using assms
proof (induction rule: inc_induct)
  case base
  then show ?case by (simp add: executeWithRetry_settles)
next
  case (step n)
  have rl: "rateLimited fn n" using step by simp
  have lt: "n < length retryDelays" using step by simp
  have IH: "executeWithRetry fn (Suc n) = (fn k, drop (Suc n) (take k retryDelays))"
    using step by simp
  have "drop n (take k retryDelays) = retryDelays ! n # drop (Suc n) (take k retryDelays)"
    using step.hyps lt by (simp add: Cons_nth_drop_Suc [symmetric])
  then show ?case using executeWithRetry_step [OF rl lt] IH by simp
qed

text \<open>
  Claim C6. Let the invocations at attempts \<open>0, \<dots>, k - 1\<close> (with \<open>k \<le> 5\<close>) throw
  rate-limit errors (status 429 or code \<^verbatim>\<open>RATE_LIMIT_EXCEEDED\<close>), and let the invocation
  at attempt \<open>k\<close> return, throw an error that is not a rate-limit signal, or be the
  sixth invocation (\<open>k = 5\<close>). Then the executor hands the caller exactly the outcome of
  that invocation, after sleeping the first \<open>k\<close> delays of the ladder 1 s, 2 s, 4 s, 8 s,
  16 s and nothing else. With \<open>k = 0\<close>: an error that is not a rate-limit signal reaches
  the caller with no delay and no retry. With \<open>k = 5\<close>: after five retries the error of
  the last invocation is surfaced, whatever it is.
\<close>

theorem execute_retry_policy:
  fixes fn :: "nat \<Rightarrow> jsError + 'a"
  assumes "k \<le> 5"
    and "\<forall>j<k. \<exists>e. fn j = Inl e \<and> isRateLimit e"
    and "\<forall>e. fn k = Inl e \<and> isRateLimit e \<longrightarrow> k = 5"
  shows "execute fn = (fn k, take k [1000, 2000, 4000, 8000, 16000])"
proof -
  have len: "length retryDelays = 5" by (simp add: retryDelays_def)
  have rl: "\<forall>j. 0 \<le> j \<and> j < k \<longrightarrow> rateLimited fn j"
    using assms(2) by (auto simp: rateLimited_def)
  have st: "settles fn k"
    using assms(3) len by (auto simp: settles_def split: sum.splits)
  have "executeWithRetry fn 0 = (fn k, drop 0 (take k retryDelays))"
    using executeWithRetry_run [of 0 k fn] assms(1) len rl st by simp
  then show ?thesis by (simp add: execute_def retryDelays_def)
qed

theorem execute_retry_policy_witness:
  "execute busyTwice = (Inr 42, [1000, 2000])"
proof -
  have h1: "(2::nat) \<le> 5" by simp
  have h2: "\<forall>j<2. \<exists>e. busyTwice j = Inl e \<and> isRateLimit e"
    by (simp add: busyTwice_def isRateLimit_def)
  have h3: "\<forall>e. busyTwice 2 = Inl e \<and> isRateLimit e \<longrightarrow> (2::nat) = 5"
    by (simp add: busyTwice_def)
  have "execute busyTwice = (busyTwice 2, take 2 [1000, 2000, 4000, 8000, 16000])"
    using execute_retry_policy [OF h1 h2 h3] .
  then show ?thesis
    by (simp add: busyTwice_def)
qed

section \<open>Formatting amounts\<close>

lemma andThen_simps [simp]:
  "andThen (Inl e) f = Inl e"
  "andThen (Inr v) f = f v"
  by (simp_all add: andThen_def)

lemma formatUnits_ok:
  "n < 2 ^ 511 \<Longrightarrow> unit \<le> 80 \<Longrightarrow> formatUnits msg (Some n) unit = Inr (n, unit)"
  by (simp add: formatUnits_def)

lemma formatUnits_decimals:
  "80 < unit \<Longrightarrow> formatUnits msg v unit = Inl (msg (DecimalsTooLarge unit))"
  by (simp add: formatUnits_def)

lemma formatUnits_overflow:
  "unit \<le> 80 \<Longrightarrow> 2 ^ 511 \<le> n \<Longrightarrow> formatUnits msg (Some n) unit = Inl (msg (NumericOverflow n))"
  by (simp add: formatUnits_def)

lemma formatUnits_throws:
  "\<not> (n < 2 ^ 511 \<and> unit \<le> 80) \<Longrightarrow> \<exists>e. formatUnits msg (Some n) unit = Inl e"
  by (auto simp: formatUnits_def)

lemma formatUnits_InrD:
  "formatUnits msg v unit = Inr r \<Longrightarrow> v = Some (fst r) \<and> fst r < 2 ^ 511 \<and> unit \<le> 80 \<and> snd r = unit"
  by (auto simp: formatUnits_def split: if_splits option.splits)

section \<open>Simulation orchestrator: one quote per pool\<close>

lemma collectQuotes_eq:
  "collectQuotes g ft amount ps acc =
     acc @ map (\<lambda>(i, p). quoteOrFailed g ft amount i p) (enumerate (length acc) ps)"
  by (induction ps arbitrary: acc) (auto simp: quoteOrFailed_def)

lemma length_collectQuotes: "length (collectQuotes g ft amount ps []) = length ps"
  by (simp add: collectQuotes_eq)

lemma nth_collectQuotes:
  "i < length ps \<Longrightarrow> collectQuotes g ft amount ps [] ! i = quoteOrFailed g ft amount i (ps ! i)"
  by (simp add: collectQuotes_eq nth_enumerate_eq)

lemma calculateRankings_Nil: "calculateRankings fl [] = []"
  by (simp add: calculateRankings_def)

lemma simulateWith_ok:
  assumes "amount < 2 ^ 511" and "decimals (sellToken tp) \<le> 80"
  shows "simulateWith msg g fl ft pools amount tp =
     Inr \<lparr>quotes = collectQuotes g ft amount pools [],
          bestQuote =
            (if calculateRankings fl (filter success (collectQuotes g ft amount pools [])) = []
             then None
             else Some (quote (calculateRankings fl
                                 (filter success (collectQuotes g ft amount pools [])) ! 0))),
          rankings = calculateRankings fl (filter success (collectQuotes g ft amount pools []))\<rparr>"
  by (simp add: simulateWith_def formatUnits_ok [OF assms] Let_def)

lemma simulateWith_throws:
  assumes "\<not> (amount < 2 ^ 511 \<and> decimals (sellToken tp) \<le> 80)"
  shows "\<exists>e. simulateWith msg g fl ft pools amount tp = Inl e"
proof -
  obtain e where "formatUnits msg (Some amount) (decimals (sellToken tp)) = Inl e"
    using formatUnits_throws [OF assms] by blast
  then show ?thesis by (simp add: simulateWith_def)
qed

lemma simulateWith_InrD:
  assumes "simulateWith msg g fl ft pools amount tp = Inr sim"
  shows "amount < 2 ^ 511 \<and> decimals (sellToken tp) \<le> 80"
    and "quotes sim = collectQuotes g ft amount pools []"
    and "rankings sim = calculateRankings fl (filter success (collectQuotes g ft amount pools []))"
    and "bestQuote sim = (if rankings sim = [] then None else Some (quote (rankings sim ! 0)))"
proof -
  show ok: "amount < 2 ^ 511 \<and> decimals (sellToken tp) \<le> 80"
  proof (rule ccontr)
    assume "\<not> (amount < 2 ^ 511 \<and> decimals (sellToken tp) \<le> 80)"
    then obtain e where "simulateWith msg g fl ft pools amount tp = Inl e"
      using simulateWith_throws by blast
    then show False using assms by simp
  qed
  have "sim = \<lparr>quotes = collectQuotes g ft amount pools [],
          bestQuote =
            (if calculateRankings fl (filter success (collectQuotes g ft amount pools [])) = []
             then None
             else Some (quote (calculateRankings fl
                                 (filter success (collectQuotes g ft amount pools [])) ! 0))),
          rankings = calculateRankings fl (filter success (collectQuotes g ft amount pools []))\<rparr>"
    using assms ok by (simp add: simulateWith_ok)
  then show "quotes sim = collectQuotes g ft amount pools []"
    and "rankings sim = calculateRankings fl (filter success (collectQuotes g ft amount pools []))"
    and "bestQuote sim = (if rankings sim = [] then None else Some (quote (rankings sim ! 0)))"
    by simp_all
qed

lemma failedQuote_sel:
  "pool (failedQuote p amount t m) = p"
  "inputAmount (failedQuote p amount t m) = amount"
  "outputAmount (failedQuote p amount t m) = 0"
  "success (failedQuote p amount t m) = False"
  "error (failedQuote p amount t m) = Some m"
  "timestamp (failedQuote p amount t m) = t"
  by (simp_all add: failedQuote_def)

lemma getQuoteForPoolWithAmount_quoter_throws:
  assumes "dex p \<noteq> ''zerox''" and "quoterFor env p amount = Inl m" and "amount < 2 ^ 511"
  shows "getQuoteForPoolWithAmount env t p amount tp =
     (if decimals (tokens_base p) \<le> 80 then Inr (failedQuote p amount t m)
      else Inl (faultMessage env (DecimalsTooLarge (decimals (tokens_base p)))))"
  using assms by (simp add: getQuoteForPoolWithAmount_def getQuoteForPool_try_def formatUnits_def)

lemma getQuoteForPoolWithAmount_zeroX_fails:
  assumes "dex p = ''zerox''" and "getZeroXQuote env tp = None" and "amount < 2 ^ 511"
  shows "getQuoteForPoolWithAmount env t p amount tp =
     (if decimals (tokens_base p) \<le> 80 then Inr (failedQuote p amount t ''ZeroX quote failed'')
      else Inl (faultMessage env (DecimalsTooLarge (decimals (tokens_base p)))))"
  using assms by (simp add: getQuoteForPoolWithAmount_def getQuoteForPool_try_def formatUnits_def)

text \<open>
  Claim C2, as the code has it. The first statement of \<^verbatim>\<open>simulateSwapsWithAmount\<close>
  formats the input amount, outside any \<^verbatim>\<open>try\<close>: for an amount from \<open>2^511\<close> on, or a
  sell token with more than \<open>80\<close> decimals, the function throws, whatever the pool list.
  Otherwise it returns, and whatever the per-pool call does (\<open>getQuote\<close> is arbitrary: it
  may throw for any pool), the simulation holds exactly one quote per supplied pool,
  the quote at position \<open>i\<close> being the one obtained for the pool at position \<open>i\<close>, or, when
  that call throws, a failed quote for that pool: \<^verbatim>\<open>success\<close> is \<^verbatim>\<open>false\<close>, the output
  amount is \<open>0\<close> and \<^verbatim>\<open>error\<close> carries the message. For the engine's own per-pool call, a
  quoter that throws, or an aggregator without a quote, gives such a failed quote for
  the pool, with the quoter's message (with the formatting error's message when the
  base token has more than \<open>80\<close> decimals). An empty pool list yields
  \<^verbatim>\<open>{quotes: [], bestQuote: null, rankings: []}\<close>.
\<close>

theorem simulate_one_quote_per_pool:
  "(amount < 2 ^ 511 \<and> decimals (sellToken tp) \<le> 80 \<longrightarrow>
      (\<exists>sim. simulateWith msg getQuote fl failTime pools amount tp = Inr sim
         \<and> length (quotes sim) = length pools
         \<and> (\<forall>i<length pools.
              (\<forall>q. getQuote i (pools ! i) = Inr q \<longrightarrow> quotes sim ! i = q)
              \<and> (\<forall>m. getQuote i (pools ! i) = Inl m \<longrightarrow>
                    pool (quotes sim ! i) = pools ! i
                    \<and> inputAmount (quotes sim ! i) = amount
                    \<and> outputAmount (quotes sim ! i) = 0
                    \<and> success (quotes sim ! i) = False
                    \<and> error (quotes sim ! i) = Some m
                    \<and> timestamp (quotes sim ! i) = failTime i))
         \<and> (pools = [] \<longrightarrow> sim = \<lparr>quotes = [], bestQuote = None, rankings = []\<rparr>)))
   \<and> (amount < 2 ^ 511 \<and> decimals (sellToken tp) \<le> 80 \<longrightarrow>
      (\<exists>sim. simulateSwapsWithAmount env fl startTime failTime pools amount tp = Inr sim
         \<and> length (quotes sim) = length pools
         \<and> (\<forall>i<length pools.
              (\<forall>q. getQuoteForPoolWithAmount env (startTime i) (pools ! i) amount tp = Inr q \<longrightarrow>
                    quotes sim ! i = q)
              \<and> (\<forall>m. (dex (pools ! i) \<noteq> ''zerox'' \<and> quoterFor env (pools ! i) amount = Inl m)
                      \<or> (dex (pools ! i) = ''zerox'' \<and> getZeroXQuote env tp = None
                          \<and> m = ''ZeroX quote failed'') \<longrightarrow>
                    pool (quotes sim ! i) = pools ! i
                    \<and> inputAmount (quotes sim ! i) = amount
                    \<and> outputAmount (quotes sim ! i) = 0
                    \<and> success (quotes sim ! i) = False
                    \<and> error (quotes sim ! i) =
                        Some (if decimals (tokens_base (pools ! i)) \<le> 80 then m
                              else faultMessage env
                                     (DecimalsTooLarge (decimals (tokens_base (pools ! i)))))))
         \<and> (pools = [] \<longrightarrow> sim = \<lparr>quotes = [], bestQuote = None, rankings = []\<rparr>)))
   \<and> (\<not> (amount < 2 ^ 511 \<and> decimals (sellToken tp) \<le> 80) \<longrightarrow>
        (\<exists>e. simulateWith msg getQuote fl failTime pools amount tp = Inl e)
        \<and> (\<exists>e. simulateSwapsWithAmount env fl startTime failTime pools amount tp = Inl e))"
proof -
  have gen: "\<exists>sim. simulateWith m' g fl failTime pools amount tp = Inr sim
         \<and> length (quotes sim) = length pools
         \<and> (\<forall>i<length pools. quotes sim ! i = quoteOrFailed g failTime amount i (pools ! i))
         \<and> (pools = [] \<longrightarrow> sim = \<lparr>quotes = [], bestQuote = None, rankings = []\<rparr>)"
    if ok: "amount < 2 ^ 511 \<and> decimals (sellToken tp) \<le> 80" for m' g
  proof -
    have a: "amount < 2 ^ 511" and b: "decimals (sellToken tp) \<le> 80" using ok by simp_all
    show ?thesis
      unfolding simulateWith_ok [OF a b]
      by (auto simp: length_collectQuotes nth_collectQuotes calculateRankings_Nil)
  qed
  have A: "\<exists>sim. simulateWith msg getQuote fl failTime pools amount tp = Inr sim
         \<and> length (quotes sim) = length pools
         \<and> (\<forall>i<length pools.
              (\<forall>q. getQuote i (pools ! i) = Inr q \<longrightarrow> quotes sim ! i = q)
              \<and> (\<forall>m. getQuote i (pools ! i) = Inl m \<longrightarrow>
                    pool (quotes sim ! i) = pools ! i
                    \<and> inputAmount (quotes sim ! i) = amount
                    \<and> outputAmount (quotes sim ! i) = 0
                    \<and> success (quotes sim ! i) = False
                    \<and> error (quotes sim ! i) = Some m
                    \<and> timestamp (quotes sim ! i) = failTime i))
         \<and> (pools = [] \<longrightarrow> sim = \<lparr>quotes = [], bestQuote = None, rankings = []\<rparr>)"
    if ok: "amount < 2 ^ 511 \<and> decimals (sellToken tp) \<le> 80"
  proof -
    from gen [OF ok, of msg getQuote] obtain sim where
      sim: "simulateWith msg getQuote fl failTime pools amount tp = Inr sim"
        "length (quotes sim) = length pools"
        "\<forall>i<length pools. quotes sim ! i = quoteOrFailed getQuote failTime amount i (pools ! i)"
        "pools = [] \<longrightarrow> sim = \<lparr>quotes = [], bestQuote = None, rankings = []\<rparr>"
      by blast
    show ?thesis
      by (rule exI [of _ sim]) (use sim in \<open>auto simp: quoteOrFailed_def failedQuote_sel\<close>)
  qed
  have B: "\<exists>sim. simulateSwapsWithAmount env fl startTime failTime pools amount tp = Inr sim
         \<and> length (quotes sim) = length pools
         \<and> (\<forall>i<length pools.
              (\<forall>q. getQuoteForPoolWithAmount env (startTime i) (pools ! i) amount tp = Inr q \<longrightarrow>
                    quotes sim ! i = q)
              \<and> (\<forall>m. (dex (pools ! i) \<noteq> ''zerox'' \<and> quoterFor env (pools ! i) amount = Inl m)
                      \<or> (dex (pools ! i) = ''zerox'' \<and> getZeroXQuote env tp = None
                          \<and> m = ''ZeroX quote failed'') \<longrightarrow>
                    pool (quotes sim ! i) = pools ! i
                    \<and> inputAmount (quotes sim ! i) = amount
                    \<and> outputAmount (quotes sim ! i) = 0
                    \<and> success (quotes sim ! i) = False
                    \<and> error (quotes sim ! i) =
                        Some (if decimals (tokens_base (pools ! i)) \<le> 80 then m
                              else faultMessage env
                                     (DecimalsTooLarge (decimals (tokens_base (pools ! i)))))))
         \<and> (pools = [] \<longrightarrow> sim = \<lparr>quotes = [], bestQuote = None, rankings = []\<rparr>)"
    if ok: "amount < 2 ^ 511 \<and> decimals (sellToken tp) \<le> 80"
  proof -
    define g where "g = (\<lambda>i p. getQuoteForPoolWithAmount env (startTime i) p amount tp)"
    from gen [OF ok, of "faultMessage env" g] obtain sim where
      sim: "simulateWith (faultMessage env) g fl failTime pools amount tp = Inr sim"
        "length (quotes sim) = length pools"
        "\<forall>i<length pools. quotes sim ! i = quoteOrFailed g failTime amount i (pools ! i)"
        "pools = [] \<longrightarrow> sim = \<lparr>quotes = [], bestQuote = None, rankings = []\<rparr>"
      by blast
    have amt: "amount < 2 ^ 511" using ok by simp
    have q: "quotes sim ! i = q"
      if "i < length pools" "getQuoteForPoolWithAmount env (startTime i) (pools ! i) amount tp = Inr q"
      for i q
      using sim(3) that by (simp add: quoteOrFailed_def g_def)
    have f: "pool (quotes sim ! i) = pools ! i
                    \<and> inputAmount (quotes sim ! i) = amount
                    \<and> outputAmount (quotes sim ! i) = 0
                    \<and> success (quotes sim ! i) = False
                    \<and> error (quotes sim ! i) =
                        Some (if decimals (tokens_base (pools ! i)) \<le> 80 then m
                              else faultMessage env
                                     (DecimalsTooLarge (decimals (tokens_base (pools ! i)))))"
      if i: "i < length pools"
        and m: "(dex (pools ! i) \<noteq> ''zerox'' \<and> quoterFor env (pools ! i) amount = Inl m)
                      \<or> (dex (pools ! i) = ''zerox'' \<and> getZeroXQuote env tp = None
                          \<and> m = ''ZeroX quote failed'')"
      for i m
    proof -
      have "getQuoteForPoolWithAmount env (startTime i) (pools ! i) amount tp =
         (if decimals (tokens_base (pools ! i)) \<le> 80
          then Inr (failedQuote (pools ! i) amount (startTime i) m)
          else Inl (faultMessage env (DecimalsTooLarge (decimals (tokens_base (pools ! i))))))"
        using m getQuoteForPoolWithAmount_quoter_throws [OF _ _ amt]
          getQuoteForPoolWithAmount_zeroX_fails [OF _ _ amt]
        by blast
      then show ?thesis
        using sim(3) i by (simp add: quoteOrFailed_def g_def failedQuote_sel)
    qed
    show ?thesis
      by (rule exI [of _ sim])
        (use sim q f in \<open>simp add: simulateSwapsWithAmount_def g_def [symmetric]\<close>)
  qed
  have C: "(\<exists>e. simulateWith msg getQuote fl failTime pools amount tp = Inl e)
        \<and> (\<exists>e. simulateSwapsWithAmount env fl startTime failTime pools amount tp = Inl e)"
    if "\<not> (amount < 2 ^ 511 \<and> decimals (sellToken tp) \<le> 80)"
    using simulateWith_throws [OF that] by (simp add: simulateSwapsWithAmount_def)
  show ?thesis using A B C by blast
qed

theorem simulate_one_quote_per_pool_witness:
  "\<exists>sim. simulateSwapsWithAmount offlineEnv noRounding (\<lambda>i. 7) (\<lambda>i. 8)
            [v2Pool, balancerPool] 5 usdePair = Inr sim
     \<and> length (quotes sim) = 2
     \<and> quotes sim ! 0 = failedQuote v2Pool 5 7 ''network error''
     \<and> success (quotes sim ! 0) = False
     \<and> quotes sim ! 1 = successQuote offlineEnv balancerPool usdePair 5 0 7"
proof -
  have a: "getQuoteForPoolWithAmount offlineEnv 7 v2Pool 5 usdePair =
             Inr (failedQuote v2Pool 5 7 ''network error'')"
    by (simp add: getQuoteForPoolWithAmount_def getQuoteForPool_try_def quoterFor_def v2Pool_def
        poolOn_def getUniswapV2Quote_def offlineEnv_def formatUnits_def usde_def)
  have b: "getQuoteForPoolWithAmount offlineEnv 7 balancerPool 5 usdePair =
             Inr (successQuote offlineEnv balancerPool usdePair 5 0 7)"
    by (simp add: getQuoteForPoolWithAmount_def getQuoteForPool_try_def quoterFor_def
        balancerPool_def poolOn_def getBalancerQuote_def decimalAdjust_def bigint_pow10_def
        usde_def usdt_def formatUnits_def)
  have h: "(5::nat) < 2 ^ 511 \<and> decimals (sellToken usdePair) \<le> 80"
    by (simp add: usdePair_def usde_def)
  from simulate_one_quote_per_pool
      [of 5 usdePair faultText "\<lambda>i p. Inl []" noRounding "\<lambda>i. 8" "[v2Pool, balancerPool]"
          offlineEnv "\<lambda>i. 7"] h
  obtain sim where
    sim: "simulateSwapsWithAmount offlineEnv noRounding (\<lambda>i. 7) (\<lambda>i. 8)
            [v2Pool, balancerPool] 5 usdePair = Inr sim"
      "length (quotes sim) = length [v2Pool, balancerPool]"
      "\<forall>i<length [v2Pool, balancerPool].
         \<forall>q. getQuoteForPoolWithAmount offlineEnv 7 ([v2Pool, balancerPool] ! i) 5 usdePair = Inr q
             \<longrightarrow> quotes sim ! i = q"
    by blast
  have "quotes sim ! 0 = failedQuote v2Pool 5 7 ''network error''"
    using sim(3) a by force
  moreover have "quotes sim ! 1 = successQuote offlineEnv balancerPool usdePair 5 0 7"
    using sim(3) b by force
  ultimately show ?thesis
    using sim(1,2) by (auto simp: failedQuote_sel)
qed

text \<open>
  The claim as stated holds for every input amount and lets an empty pool list never
  end in an error. For the input amount \<open>2^511\<close> the call throws on the empty pool list:
  \<^verbatim>\<open>ethers.formatUnits\<close> in the first statement raises its overflow error.
\<close>

theorem simulate_throws_counterexample:
  "simulateSwapsWithAmount offlineEnv noRounding clock0 clock0 [] (2 ^ 511) usdePair =
     Inl (faultText (NumericOverflow (2 ^ 511)))"
  by (simp add: simulateSwapsWithAmount_def simulateWith_def formatUnits_def usdePair_def
      usde_def offlineEnv_def)

section \<open>Rounding to a double: order and error\<close>

lemma round53_lower:
  assumes "2 ^ 53 \<le> n"
  shows "2 ^ (52 + (bitlength n - 53)) \<le> round53 n"
proof -
  define e where "e = bitlength n - 53"
  have "2 ^ (52 + e) \<le> n" using round53_range(1) [OF assms] by (simp only: e_def)
  then have "2 ^ (52 + e) div 2 ^ e \<le> n div 2 ^ e" by (rule div_le_mono)
  moreover have "(2::nat) ^ (52 + e) div 2 ^ e = 2 ^ 52" by (simp only: power_add) simp
  ultimately have "(2::nat) ^ 52 \<le> n div 2 ^ e" by (simp only:)
  then have "(2::nat) ^ 52 * 2 ^ e \<le> n div 2 ^ e * 2 ^ e" by (rule mult_le_mono1)
  moreover have "n div 2 ^ e * 2 ^ e \<le> round53 n"
    using round53_between(1) [OF assms] by (simp only: e_def)
  ultimately have "(2::nat) ^ 52 * 2 ^ e \<le> round53 n" by (rule le_trans)
  then show ?thesis by (simp only: e_def power_add)
qed

lemma round53_upper:
  assumes "2 ^ 53 \<le> n"
  shows "round53 n \<le> 2 ^ (53 + (bitlength n - 53))"
proof -
  define e where "e = bitlength n - 53"
  have "n < 2 ^ (53 + e)" using round53_range(2) [OF assms] by (simp only: e_def)
  then have "n < 2 ^ 53 * 2 ^ e" by (simp only: power_add)
  then have "n div 2 ^ e < 2 ^ 53" by (simp only: less_mult_imp_div_less)
  then have "n div 2 ^ e + 1 \<le> 2 ^ 53" by (simp only: Suc_eq_plus1 [symmetric] Suc_le_eq)
  then have "(n div 2 ^ e + 1) * 2 ^ e \<le> 2 ^ 53 * 2 ^ e" by (rule mult_le_mono1)
  moreover have "round53 n \<le> (n div 2 ^ e + 1) * 2 ^ e"
    using round53_between(2) [OF assms] by (simp only: e_def)
  ultimately have "round53 n \<le> 2 ^ 53 * 2 ^ e" by (meson le_trans)
  then show ?thesis by (simp only: e_def power_add)
qed

lemma round53_mono_same:
  assumes m: "2 ^ 53 \<le> m" and mn: "m \<le> n" and eq: "bitlength m = bitlength n"
  shows "round53 m \<le> round53 n"
proof -
  define e where "e = bitlength n - 53"
  have n: "2 ^ 53 \<le> n" using m mn by linarith
  have qle: "m div 2 ^ e \<le> n div 2 ^ e" using mn by (rule div_le_mono)
  show ?thesis
  proof (cases "m div 2 ^ e = n div 2 ^ e")
    case True
    have "m mod 2 ^ e \<le> n mod 2 ^ e"
    proof -
      have "m div 2 ^ e * 2 ^ e + m mod 2 ^ e \<le> n div 2 ^ e * 2 ^ e + n mod 2 ^ e"
        using mn by (simp only: div_mult_mod_eq)
      then show ?thesis by (simp only: True add_le_cancel_left)
    qed
    then show ?thesis
      using m n True eq by (auto simp: round53_def Let_def e_def)
  next
    case False
    then have "m div 2 ^ e + 1 \<le> n div 2 ^ e" using qle by linarith
    then have "(m div 2 ^ e + 1) * 2 ^ e \<le> n div 2 ^ e * 2 ^ e" by (rule mult_le_mono1)
    moreover have "round53 m \<le> (m div 2 ^ e + 1) * 2 ^ e"
      using round53_between(2) [OF m] eq by (simp add: e_def)
    moreover have "n div 2 ^ e * 2 ^ e \<le> round53 n"
      using round53_between(1) [OF n] by (simp add: e_def)
    ultimately show ?thesis by linarith
  qed
qed

lemma round53_mono: "m \<le> n \<Longrightarrow> round53 m \<le> round53 n"
proof -
  assume mn: "m \<le> n"
  show ?thesis
  proof (cases "n < 2 ^ 53")
    case True
    then show ?thesis using mn by (simp add: round53_def)
  next
    case False
    then have n: "2 ^ 53 \<le> n" by simp
    show ?thesis
    proof (cases "m < 2 ^ 53")
      case True
      have "(2::nat) ^ 53 \<le> 2 ^ (52 + (bitlength n - 53))"
        by (rule power_increasing) (use bitlength_ge54 [OF n] in simp_all)
      then show ?thesis using True round53_lower [OF n] by (simp add: round53_def)
    next
      case False
      then have m: "2 ^ 53 \<le> m" by simp
      show ?thesis
      proof (cases "bitlength m = bitlength n")
        case True
        then show ?thesis using round53_mono_same [OF m mn] by simp
      next
        case False
        then have lt: "bitlength m < bitlength n" using bitlength_mono [OF mn] by simp
        have "(2::nat) ^ (53 + (bitlength m - 53)) \<le> 2 ^ (52 + (bitlength n - 53))"
          by (rule power_increasing) (use lt bitlength_ge54 [OF m] in simp_all)
        then show ?thesis using round53_upper [OF m] round53_lower [OF n] by linarith
      qed
    qed
  qed
qed

lemma round53_pos: "0 < n \<Longrightarrow> 0 < round53 n"
proof -
  assume pos: "0 < n"
  have "round53 1 \<le> round53 n" by (rule round53_mono) (use pos in simp)
  then show ?thesis by (simp add: round53_def)
qed

lemma round53_le_pow:
  assumes "n < 2 ^ k" shows "round53 n \<le> 2 ^ k"
proof (cases "n < 2 ^ 53")
  case True
  then show ?thesis using assms by (simp add: round53_def)
next
  case False
  then have n: "2 ^ 53 \<le> n" by simp
  have "53 + (bitlength n - 53) = bitlength n" using bitlength_ge54 [OF n] by simp
  then have "round53 n \<le> 2 ^ bitlength n" using round53_upper [OF n] by simp
  moreover have "(2::nat) ^ bitlength n \<le> 2 ^ k"
    by (rule power_increasing) (use bitlength_le [OF assms] in simp_all)
  ultimately show ?thesis by linarith
qed

text \<open>The rounding error is at most half a unit in the last place.\<close>

lemma round53_error:
  assumes n: "2 ^ 53 \<le> n"
  defines "e \<equiv> bitlength n - 53"
  shows "round53 n \<le> n + 2 ^ (e - 1)" and "n \<le> round53 n + 2 ^ (e - 1)"
proof -
  have e1: "1 \<le> e" using bitlength_ge54 [OF n] by (simp add: e_def)
  define q where "q = n div 2 ^ e"
  define r where "r = n mod 2 ^ e"
  define h where "h = (2::nat) ^ (e - 1)"
  have hh: "2 ^ e = 2 * h" using e1 by (cases e) (simp_all add: h_def)
  have nqr: "n = q * 2 ^ e + r" by (simp only: q_def r_def div_mult_mod_eq)
  have rlt: "r < 2 * h" unfolding hh [symmetric] r_def by simp
  have rd: "round53 n = (if r < h \<or> (r = h \<and> even q) then q else q + 1) * 2 ^ e"
    using n by (simp add: round53_def Let_def e_def q_def r_def h_def)
  have A: "round53 n \<le> n + h"
  proof (cases "r < h \<or> (r = h \<and> even q)")
    case True
    then have "round53 n = q * 2 ^ e" using rd by simp
    then show ?thesis using nqr by linarith
  next
    case False
    then have "h \<le> r" by auto
    moreover have "round53 n = (q + 1) * 2 ^ e" using rd False by (simp only: if_False)
    then have "round53 n = q * 2 ^ e + 2 * h" using hh by (simp add: algebra_simps)
    ultimately show ?thesis using nqr by linarith
  qed
  have B: "n \<le> round53 n + h"
  proof (cases "r < h \<or> (r = h \<and> even q)")
    case True
    then have "r \<le> h" by auto
    moreover have "round53 n = q * 2 ^ e" using rd True by simp
    ultimately show ?thesis using nqr by linarith
  next
    case False
    then have "round53 n = (q + 1) * 2 ^ e" using rd by (simp only: if_False)
    then have "round53 n = q * 2 ^ e + 2 * h" using hh by (simp add: algebra_simps)
    then show ?thesis using nqr rlt by linarith
  qed
  show "round53 n \<le> n + 2 ^ (e - 1)" using A by (simp only: h_def)
  show "n \<le> round53 n + 2 ^ (e - 1)" using B by (simp only: h_def)
qed

lemma round53_rel_error:
  "2 ^ 53 * round53 n \<le> (2 ^ 53 + 1) * n \<and> (2 ^ 53 - 1) * n \<le> 2 ^ 53 * round53 n"
proof (cases "n < 2 ^ 53")
  case True
  then have "round53 n = n" by (simp add: round53_def)
  then show ?thesis by (simp add: algebra_simps diff_mult_distrib)
next
  case False
  then have n: "2 ^ 53 \<le> n" by simp
  define e where "e = bitlength n - 53"
  define h where "h = (2::nat) ^ (e - 1)"
  have e1: "1 \<le> e" using bitlength_ge54 [OF n] by (simp add: e_def)
  have "2 ^ (52 + e) \<le> n" using round53_range(1) [OF n] by (simp only: e_def)
  moreover have "(2::nat) ^ (52 + e) = 2 ^ 53 * h"
    using e1 by (cases e) (simp_all add: h_def power_add)
  ultimately have hn: "2 ^ 53 * h \<le> n" by simp
  have a: "round53 n \<le> n + h" and b: "n \<le> round53 n + h"
    using round53_error [OF n] by (simp_all add: e_def h_def)
  have "2 ^ 53 * round53 n \<le> 2 ^ 53 * n + 2 ^ 53 * h"
    using a by (metis add_mult_distrib2 mult_le_mono2)
  then have 1: "2 ^ 53 * round53 n \<le> (2 ^ 53 + 1) * n" using hn by (simp add: algebra_simps)
  have "2 ^ 53 * n \<le> 2 ^ 53 * round53 n + 2 ^ 53 * h"
    using b by (metis add_mult_distrib2 mult_le_mono2)
  then have "2 ^ 53 * n \<le> 2 ^ 53 * round53 n + n" using hn by linarith
  then have 2: "(2 ^ 53 - 1) * n \<le> 2 ^ 53 * round53 n" by (simp add: diff_mult_distrib)
  show ?thesis using 1 2 by simp
qed

section \<open>parseFloat on amounts\<close>

lemma gt_zero_parseFloat: "gt_zero (parseFloat n) \<longleftrightarrow> 0 < n"
proof (cases "n = 0")
  case True
  then show ?thesis by (simp add: parseFloat_def round53_def)
next
  case False
  then show ?thesis using round53_pos [of n] by (simp add: parseFloat_def)
qed

lemma rankable_iff: "rankable q \<longleftrightarrow> success q \<and> 0 < outputAmount q"
  by (simp add: rankable_def gt_zero_parseFloat)

lemma parseFloat_small: "n < 2 ^ 53 \<Longrightarrow> parseFloat n = Finite (real n)"
  by (simp add: parseFloat_def round53_def)

lemma parseFloat_mono: "m \<le> n \<Longrightarrow> double_le (parseFloat m) (parseFloat n)"
proof -
  assume "m \<le> n"
  then have "round53 m \<le> round53 n" by (rule round53_mono)
  then show ?thesis by (auto simp: parseFloat_def double_le_def)
qed

lemma double_le_parseFloatD:
  assumes "double_le (parseFloat m) (parseFloat n)"
  shows "m \<le> n \<or> parseFloat m = parseFloat n"
proof (cases "m \<le> n")
  case True
  then show ?thesis by simp
next
  case False
  then have "double_le (parseFloat n) (parseFloat m)" by (intro parseFloat_mono) simp
  then show ?thesis using assms by (simp add: double_le_antisym)
qed

lemma parseFloat_Finite_bounds:
  assumes "parseFloat n = Finite x" and "0 < n"
  shows "1 \<le> x" and "x < 2 ^ 1024"
proof -
  have x: "x = real (round53 n)" and lt: "round53 n < 2 ^ 1024"
    using assms(1) by (auto simp: parseFloat_def split: if_splits)
  have "1 \<le> round53 n" using round53_pos [OF assms(2)] by simp
  then show "1 \<le> x" using x by simp
  have "real (round53 n) < real ((2::nat) ^ 1024)" using lt by (simp only: of_nat_less_iff)
  then show "x < 2 ^ 1024" using x by simp
qed

lemma parseFloat_rel_error:
  assumes "parseFloat n = Finite x"
  shows "2 ^ 53 * x \<le> (2 ^ 53 + 1) * real n" and "(2 ^ 53 - 1) * real n \<le> 2 ^ 53 * x"
proof -
  have x: "x = real (round53 n)" using assms by (auto simp: parseFloat_def split: if_splits)
  have "real (2 ^ 53 * round53 n) \<le> real ((2 ^ 53 + 1) * n)"
    using round53_rel_error [of n] by (simp only: of_nat_le_iff)
  then show "2 ^ 53 * x \<le> (2 ^ 53 + 1) * real n" by (simp add: x)
  have "real ((2 ^ 53 - 1) * n) \<le> real (2 ^ 53 * round53 n)"
    using round53_rel_error [of n] by (simp only: of_nat_le_iff)
  then show "(2 ^ 53 - 1) * real n \<le> 2 ^ 53 * x" by (simp add: x)
qed

lemma parseFloat_finite:
  assumes "n < 2 ^ 511" shows "\<exists>x. parseFloat n = Finite x"
proof -
  have "round53 n \<le> 2 ^ 511" using assms by (rule round53_le_pow)
  moreover have "(2::nat) ^ 511 < 2 ^ 1024" by simp
  ultimately have "round53 n < 2 ^ 1024" by linarith
  then show ?thesis by (simp add: parseFloat_def)
qed

lemma parseFloat_e18: "parseFloat 1000000000000000000 = Finite 1000000000000000000"
  by (simp add: parseFloat_def round53_def bitlength.simps Let_def)

lemma parseFloat_e18_1: "parseFloat 1000000000000000001 = Finite 1000000000000000000"
  by (simp add: parseFloat_def round53_def bitlength.simps Let_def)

section \<open>Ranking engine: structure of the result\<close>

lemma calculateRankings_eq:
  "calculateRankings fl qs =
     map (makeRanking fl (sortedQuotes qs)) (enumerate 0 (sortedQuotes qs))"
proof (cases "sortedQuotes qs = []")
  case True
  then show ?thesis by (simp add: calculateRankings_def sortedQuotes_def)
next
  case False
  then have "qs \<noteq> []" by (auto simp: sortedQuotes_def sort_cmp_def)
  with False show ?thesis
    by (simp add: calculateRankings_def sortedQuotes_def makeRanking_def Let_def)
qed

lemma map_quote_calculateRankings: "map quote (calculateRankings fl qs) = sortedQuotes qs"
proof -
  have "quote \<circ> makeRanking fl s = snd" for s
    by (auto simp: makeRanking_def fun_eq_iff)
  then show ?thesis by (simp add: calculateRankings_eq)
qed

lemma length_calculateRankings: "length (calculateRankings fl qs) = length (sortedQuotes qs)"
  by (simp add: calculateRankings_eq)

lemma map_rank_calculateRankings:
  "map rank (calculateRankings fl qs) = [1..<Suc (length (calculateRankings fl qs))]"
proof -
  have "rank \<circ> makeRanking fl s = Suc \<circ> fst" for s
    by (auto simp: makeRanking_def fun_eq_iff)
  then have "map rank (calculateRankings fl qs) =
               map (Suc \<circ> fst) (enumerate 0 (sortedQuotes qs))"
    by (simp add: calculateRankings_eq)
  also have "\<dots> = map Suc [0..<length (sortedQuotes qs)]"
    by (simp only: map_map [symmetric] map_fst_enumerate) simp
  also have "\<dots> = [1..<Suc (length (sortedQuotes qs))]" by (simp add: map_Suc_upt)
  finally show ?thesis by (simp add: length_calculateRankings)
qed

lemma nth_calculateRankings:
  "i < length (sortedQuotes qs) \<Longrightarrow>
   calculateRankings fl qs ! i = makeRanking fl (sortedQuotes qs) (i, sortedQuotes qs ! i)"
  by (simp add: calculateRankings_eq nth_enumerate_eq)

lemma priceAdvantage_of_bounds:
  "0 \<le> priceAdvantage_of fl w b c \<and> priceAdvantage_of fl w b c \<le> 1000"
  by (cases w; cases c) (simp_all add: Let_def)

lemma mset_sortedQuotes:
  "mset (sortedQuotes qs) = mset (filter (\<lambda>q. success q \<and> 0 < outputAmount q) qs)"
proof -
  have "rankable = (\<lambda>q. success q \<and> 0 < outputAmount q)"
    by (simp add: fun_eq_iff rankable_iff)
  then show ?thesis by (simp add: sortedQuotes_def mset_sort_cmp)
qed

lemma set_sortedQuotes:
  "set (sortedQuotes qs) = {q \<in> set qs. success q \<and> 0 < outputAmount q}"
  by (auto simp: sortedQuotes_def set_sort_cmp rankable_iff)

lemma sorted_sortedQuotes:
  "sorted_wrt (\<lambda>a b. double_le (parseFloat (outputAmount b)) (parseFloat (outputAmount a)))
     (sortedQuotes qs)"
  using sorted_compare_output [of "filter rankable qs"]
  by (simp add: sortedQuotes_def compare_output_def double_le_def)

lemma sortedQuotes_nth_le:
  assumes "i \<le> j" and "j < length (sortedQuotes qs)"
  shows "double_le (parseFloat (outputAmount (sortedQuotes qs ! j)))
           (parseFloat (outputAmount (sortedQuotes qs ! i)))"
proof (cases "i = j")
  case True
  then show ?thesis by (simp add: double_le_refl)
next
  case False
  then have "i < j" using assms(1) by simp
  then show ?thesis
    using sorted_wrt_nth_less [OF sorted_sortedQuotes [of qs] _ assms(2)] by simp
qed

lemma set_calculateRankings:
  "r \<in> set (calculateRankings fl qs) \<Longrightarrow>
   quote r \<in> set qs \<and> success (quote r) \<and> 0 < outputAmount (quote r)"
proof -
  assume "r \<in> set (calculateRankings fl qs)"
  then have "quote r \<in> set (map quote (calculateRankings fl qs))" by simp
  then show ?thesis by (simp add: map_quote_calculateRankings set_sortedQuotes)
qed

lemma quoteOf_sel: "outputAmount (quoteOf n) = n" "success (quoteOf n)"
  by (simp_all add: quoteOf_def)

lemma sortedQuotes_tiePair: "sortedQuotes tiePair = tiePair"
  by (simp add: tiePair_def sortedQuotes_def rankable_iff sort_cmp_def compare_output_def
      parseFloat_e18 parseFloat_e18_1 quoteOf_sel)

lemma sortedQuotes_closePair: "sortedQuotes closePair = closePair"
  by (simp add: closePair_def sortedQuotes_def rankable_iff sort_cmp_def compare_output_def
      parseFloat_small quoteOf_sel)

section \<open>Ranking engine: filter, order, ranks, price advantage\<close>

text \<open>
  Claim C1, as the code has it. The rankings hold exactly the quotes with
  \<^verbatim>\<open>success == true\<close> and \<^verbatim>\<open>outputAmount > 0\<close> (as a multiset), their ranks are
  \<open>1, \<dots>, N\<close> in list order, every price advantage lies in \<open>[0, 1000]\<close>, and the order
  is descending in the double nearest to \<^verbatim>\<open>outputAmount\<close> (the value of
  \<^verbatim>\<open>parseFloat\<close>): descending in \<^verbatim>\<open>outputAmount\<close> itself except between quotes whose
  amounts round to the same double, and descending in \<^verbatim>\<open>outputAmount\<close> outright when
  every amount is below \<open>2^53\<close>.
\<close>

theorem calculateRankings_ranked:
  "mset (map quote (calculateRankings fl qs)) =
     mset (filter (\<lambda>q. success q \<and> 0 < outputAmount q) qs)
   \<and> sorted_wrt (\<lambda>a b. double_le (parseFloat (outputAmount b)) (parseFloat (outputAmount a)))
        (map quote (calculateRankings fl qs))
   \<and> sorted_wrt (\<lambda>a b. outputAmount b \<le> outputAmount a
                        \<or> parseFloat (outputAmount b) = parseFloat (outputAmount a))
        (map quote (calculateRankings fl qs))
   \<and> ((\<forall>q\<in>set qs. outputAmount q < 2 ^ 53) \<longrightarrow>
        sorted_wrt (\<lambda>a b. outputAmount b \<le> outputAmount a) (map quote (calculateRankings fl qs)))
   \<and> map rank (calculateRankings fl qs) = [1..<Suc (length (calculateRankings fl qs))]
   \<and> (\<forall>r\<in>set (calculateRankings fl qs).
         0 \<le> priceAdvantage r \<and> priceAdvantage r \<le> 1000 \<and> ranking_pool r = pool (quote r))"
proof -
  have adv: "0 \<le> priceAdvantage r \<and> priceAdvantage r \<le> 1000 \<and> ranking_pool r = pool (quote r)"
    if "r \<in> set (calculateRankings fl qs)" for r
  proof -
    from that obtain i q where "r = makeRanking fl (sortedQuotes qs) (i, q)"
      by (auto simp: calculateRankings_eq)
    then show ?thesis using priceAdvantage_of_bounds by (simp add: makeRanking_def)
  qed
  have s2: "sorted_wrt (\<lambda>a b. outputAmount b \<le> outputAmount a
                        \<or> parseFloat (outputAmount b) = parseFloat (outputAmount a))
              (sortedQuotes qs)"
    by (rule sorted_wrt_mono_rel [OF _ sorted_sortedQuotes]) (rule double_le_parseFloatD)
  have s3: "sorted_wrt (\<lambda>a b. outputAmount b \<le> outputAmount a) (sortedQuotes qs)"
    if small: "\<forall>q\<in>set qs. outputAmount q < 2 ^ 53"
  proof (rule sorted_wrt_mono_rel [OF _ s2])
    fix a b
    assume a: "a \<in> set (sortedQuotes qs)" and b: "b \<in> set (sortedQuotes qs)"
      and ab: "outputAmount b \<le> outputAmount a
                \<or> parseFloat (outputAmount b) = parseFloat (outputAmount a)"
    have "outputAmount a < 2 ^ 53" "outputAmount b < 2 ^ 53"
      using a b small by (simp_all add: set_sortedQuotes)
    then have "parseFloat (outputAmount a) = Finite (real (outputAmount a))"
      "parseFloat (outputAmount b) = Finite (real (outputAmount b))"
      by (simp_all add: parseFloat_small)
    then show "outputAmount b \<le> outputAmount a" using ab by auto
  qed
  show ?thesis
    using mset_sortedQuotes sorted_sortedQuotes s2 s3 map_rank_calculateRankings adv
    by (simp add: map_quote_calculateRankings)
qed

theorem calculateRankings_ranked_witness:
  "map rank (calculateRankings noRounding closePair) = [1, 2]
   \<and> sorted_wrt (\<lambda>a b. outputAmount b \<le> outputAmount a)
        (map quote (calculateRankings noRounding closePair))"
proof -
  have len: "length (calculateRankings noRounding closePair) = 2"
    by (simp only: length_calculateRankings sortedQuotes_closePair) (simp add: closePair_def)
  have small: "\<forall>q\<in>set closePair. outputAmount q < 2 ^ 53"
    by (simp add: closePair_def quoteOf_sel)
  have "[1..<Suc 2] = [1, 2]" by (simp add: upt_rec)
  then show ?thesis
    using calculateRankings_ranked [of noRounding closePair] len small by simp
qed

text \<open>
  The claim as stated asks for descending order of \<^verbatim>\<open>outputAmount\<close>. The amounts
  \<open>10^18\<close> and \<open>10^18 + 1\<close> have the same double, so the comparator returns \<open>0\<close> and
  the quote with the smaller amount, first in the input, is ranked first.
\<close>

theorem calculateRankings_exact_order_counterexample:
  "map outputAmount (map quote (calculateRankings noRounding tiePair)) =
     [1000000000000000000, 1000000000000000001]
   \<and> map rank (calculateRankings noRounding tiePair) = [1, 2]
   \<and> \<not> sorted_wrt (\<lambda>a b. outputAmount b \<le> outputAmount a)
         (map quote (calculateRankings noRounding tiePair))"
proof -
  have q: "map quote (calculateRankings noRounding tiePair) = tiePair"
    by (simp only: map_quote_calculateRankings sortedQuotes_tiePair)
  have len: "length (calculateRankings noRounding tiePair) = 2"
    by (simp only: length_calculateRankings sortedQuotes_tiePair) (simp add: tiePair_def)
  have "[1..<Suc 2] = [1, 2]" by (simp add: upt_rec)
  then have r: "map rank (calculateRankings noRounding tiePair) = [1, 2]"
    using map_rank_calculateRankings [of noRounding tiePair] len by simp
  show ?thesis
    unfolding q using r by (simp add: tiePair_def quoteOf_sel)
qed

section \<open>Ranking engine: ties\<close>

lemma subseq_pairD:
  "subseq [x, y] zs \<Longrightarrow> \<exists>a b. a < b \<and> b < length zs \<and> zs ! a = x \<and> zs ! b = y"
proof (induction zs)
  case Nil
  then show ?case by simp
next
  case (Cons z zs)
  show ?case
  proof (cases "z = x \<and> subseq [y] zs")
    case True
    then have "y \<in> set zs" by (simp add: subseq_singleton_left)
    then obtain k where "k < length zs" "zs ! k = y" by (auto simp: in_set_conv_nth)
    with True have "0 < Suc k \<and> Suc k < length (z # zs) \<and> (z # zs) ! 0 = x
                    \<and> (z # zs) ! Suc k = y"
      by simp
    then show ?thesis by blast
  next
    case False
    then have "subseq [x, y] zs"
      using Cons.prems by (auto simp: subseq_Cons2_iff split: if_splits)
    then obtain a b where "a < b" "b < length zs" "zs ! a = x" "zs ! b = y"
      using Cons.IH by blast
    then have "Suc a < Suc b \<and> Suc b < length (z # zs) \<and> (z # zs) ! Suc a = x
               \<and> (z # zs) ! Suc b = y"
      by simp
    then show ?thesis by blast
  qed
qed

lemma subseq_pairI:
  assumes "i < j" and "j < length xs"
  shows "subseq [xs ! i, xs ! j] xs"
proof -
  have i: "i < length xs" using assms by simp
  have xs: "xs = take i xs @ xs ! i # drop (Suc i) xs" using i by (rule id_take_nth_drop)
  have "xs ! j \<in> set (drop (Suc i) xs)"
  proof -
    have "drop (Suc i) xs ! (j - Suc i) = xs ! j" using assms by simp
    moreover have "j - Suc i < length (drop (Suc i) xs)" using assms by simp
    ultimately show ?thesis by (metis nth_mem)
  qed
  then have "subseq [xs ! j] (drop (Suc i) xs)" by (simp add: subseq_singleton_left)
  then have "subseq (xs ! i # [xs ! j]) (xs ! i # drop (Suc i) xs)" by (rule subseq_Cons2)
  then have "subseq [xs ! i, xs ! j] (take i xs @ xs ! i # drop (Suc i) xs)"
    by (rule subseq_drop_many)
  then show ?thesis using xs by simp
qed

lemma filter_equal_output_sortedQuotes:
  "filter (\<lambda>q. outputAmount q = n) (sortedQuotes qs) =
   filter (\<lambda>q. outputAmount q = n) (filter rankable qs)"
  unfolding sortedQuotes_def
  by (rule filter_sort_cmp) (simp add: compare_output_def diff_sign_refl)

text \<open>
  Claim C7. When two successful quotes of the input have the same positive
  \<^verbatim>\<open>outputAmount\<close>, the one earlier in the input is ranked before the other: it sits at
  an earlier position of the rankings and its rank number, the position plus one, is the
  smaller.
\<close>

theorem equal_output_keeps_input_order:
  assumes "i < j" and "j < length qs"
    and "success (qs ! i)" and "success (qs ! j)"
    and "0 < outputAmount (qs ! i)" and "outputAmount (qs ! j) = outputAmount (qs ! i)"
  shows "\<exists>a b. a < b \<and> b < length (calculateRankings fl qs)
           \<and> quote (calculateRankings fl qs ! a) = qs ! i
           \<and> quote (calculateRankings fl qs ! b) = qs ! j
           \<and> rank (calculateRankings fl qs ! a) = a + 1
           \<and> rank (calculateRankings fl qs ! b) = b + 1
           \<and> rank (calculateRankings fl qs ! a) < rank (calculateRankings fl qs ! b)"
proof -
  define n where "n = outputAmount (qs ! i)"
  define P where "P = (\<lambda>q. rankable q \<and> outputAmount q = n)"
  define s where "s = sortedQuotes qs"
  have Pi: "P (qs ! i)" and Pj: "P (qs ! j)"
    using assms by (simp_all add: P_def n_def rankable_iff)
  have "subseq (filter P [qs ! i, qs ! j]) (filter P qs)"
    by (rule subseq_filter) (rule subseq_pairI [OF assms(1,2)])
  then have "subseq [qs ! i, qs ! j] (filter P qs)" using Pi Pj by simp
  moreover have "filter P qs = filter (\<lambda>q. outputAmount q = n) s"
    by (simp add: s_def filter_equal_output_sortedQuotes P_def conj_commute)
  ultimately have "subseq [qs ! i, qs ! j] (filter (\<lambda>q. outputAmount q = n) s)" by simp
  then have "subseq [qs ! i, qs ! j] s"
    by (rule subseq_order.order_trans) (rule subseq_filter_left)
  then have "\<exists>a b. a < b \<and> b < length s \<and> s ! a = qs ! i \<and> s ! b = qs ! j"
    by (rule subseq_pairD)
  then obtain a b where ab: "a < b" "b < length s" "s ! a = qs ! i" "s ! b = qs ! j"
    by (elim exE conjE)
  have ra: "calculateRankings fl qs ! a = makeRanking fl s (a, s ! a)"
    and rb: "calculateRankings fl qs ! b = makeRanking fl s (b, s ! b)"
    using ab by (simp_all add: nth_calculateRankings s_def)
  have "a < b \<and> b < length (calculateRankings fl qs)
           \<and> quote (calculateRankings fl qs ! a) = qs ! i
           \<and> quote (calculateRankings fl qs ! b) = qs ! j
           \<and> rank (calculateRankings fl qs ! a) = a + 1
           \<and> rank (calculateRankings fl qs ! b) = b + 1
           \<and> rank (calculateRankings fl qs ! a) < rank (calculateRankings fl qs ! b)"
    using ab by (simp add: ra rb makeRanking_def length_calculateRankings s_def)
  then show ?thesis by blast
qed

theorem equal_output_keeps_input_order_witness:
  "\<exists>a b. a < b \<and> b < length (calculateRankings noRounding [firstSeen, secondSeen])
     \<and> quote (calculateRankings noRounding [firstSeen, secondSeen] ! a) = firstSeen
     \<and> quote (calculateRankings noRounding [firstSeen, secondSeen] ! b) = secondSeen
     \<and> rank (calculateRankings noRounding [firstSeen, secondSeen] ! a) = a + 1
     \<and> rank (calculateRankings noRounding [firstSeen, secondSeen] ! b) = b + 1
     \<and> rank (calculateRankings noRounding [firstSeen, secondSeen] ! a)
         < rank (calculateRankings noRounding [firstSeen, secondSeen] ! b)"
  using equal_output_keeps_input_order [of 0 1 "[firstSeen, secondSeen]" noRounding]
  by (simp add: firstSeen_def secondSeen_def quoteOf_def)

section \<open>Ranking engine: the noise threshold\<close>

lemma small_difference_close:
  assumes acc: "\<forall>x. \<bar>x\<bar> \<le> 2 ^ 1023 \<longrightarrow> \<bar>fl x - x\<bar> \<le> \<bar>x\<bar> / 100000 + 1 / 10000000000"
    and w1: "1 \<le> w" and wc: "w \<le> c" and top: "w < 2 ^ 1024"
    and best: "double_le (Finite c) B"
    and close: "1000000000 * (c - w) < 100001 * w"
  shows "small_difference fl c w B"
proof (cases B)
  case PosInfinity
  then show ?thesis by simp
next
  case (Finite b)
  have cb: "c \<le> b" using best Finite by (simp add: double_le_Finite)
  define k where "k = c - w"
  have k0: "0 \<le> k" using wc by (simp add: k_def)
  have kw: "1000000000 * k < 100001 * w" using close by (simp add: k_def)
  have bpos: "0 < b" using w1 wc cb by linarith
  have "k < 2 ^ 1024 * (100001 / 1000000000)" using kw top by linarith
  also have "\<dots> \<le> (2::real) ^ 1023" by simp
  finally have "\<bar>k\<bar> \<le> 2 ^ 1023" using k0 by simp
  then have "\<bar>fl k - k\<bar> \<le> \<bar>k\<bar> / 100000 + 1 / 10000000000" using acc by blast
  then have fk: "\<bar>fl k\<bar> \<le> k + k / 100000 + 1 / 10000000000" using k0 by linarith
  define t where "t = \<bar>fl k\<bar> / b"
  have t0: "0 \<le> t" using bpos by (simp add: t_def)
  have "1000100001 * k < 100001 * b" using kw wc cb by (simp add: k_def)
  then have kb: "k / b < 100001 / 1000100001" using bpos by (simp add: field_simps)
  have ib: "1 / b \<le> 1" using w1 wc cb by (simp add: field_simps)
  have "t \<le> (k + k / 100000 + 1 / 10000000000) / b"
    unfolding t_def using fk bpos by (simp add: divide_right_mono)
  also have "\<dots> = (k / b) * (1 + 1 / 100000) + (1 / 10000000000) * (1 / b)"
    using bpos by (simp add: field_simps)
  also have "\<dots> \<le> (100001 / 1000100001) * (1 + 1 / 100000) + (1 / 10000000000) * 1"
    using kb ib by (intro add_mono mult_right_mono mult_left_mono) simp_all
  finally have tle: "t \<le> (100001 / 1000100001) * (1 + 1 / 100000) + 1 / 10000000000" by simp
  then have "\<bar>t\<bar> \<le> 2 ^ 1023" using t0 by simp
  then have "\<bar>fl t - t\<bar> \<le> \<bar>t\<bar> / 100000 + 1 / 10000000000" using acc by blast
  then have "fl t \<le> t + t / 100000 + 1 / 10000000000" using t0 by linarith
  then have "fl t < 1 / 10000" using tle by simp
  also have "\<dots> \<le> double_0_0001" by (simp add: double_0_0001_def)
  finally show ?thesis using Finite bpos by (simp add: t_def k_def)
qed

lemma priceAdvantage_close:
  assumes acc: "\<forall>x. \<bar>x\<bar> \<le> 2 ^ 1023 \<longrightarrow> \<bar>fl x - x\<bar> \<le> \<bar>x\<bar> / 100000 + 1 / 10000000000"
    and i: "i < length (sortedQuotes qs)"
    and c: "parseFloat (outputAmount (sortedQuotes qs ! i)) = Finite c"
    and w: "parseFloat (outputAmount (sortedQuotes qs ! (length (sortedQuotes qs) - 1))) = Finite w"
    and close: "1000000000 * (c - w) < 100001 * w"
  shows "priceAdvantage (makeRanking fl (sortedQuotes qs) (i, sortedQuotes qs ! i)) = 0"
proof -
  define s where "s = sortedQuotes qs"
  have len: "0 < length s" using i by (cases s) (simp_all add: s_def)
  have "s ! (length s - 1) \<in> set s" using len by (intro nth_mem) simp
  then have "s ! (length s - 1) \<in> set (sortedQuotes qs)" by (simp add: s_def)
  then have wpos: "0 < outputAmount (s ! (length s - 1))" by (simp add: set_sortedQuotes)
  have w1: "1 \<le> w" and top: "w < 2 ^ 1024"
    using parseFloat_Finite_bounds [OF _ wpos] w by (simp_all add: s_def)
  have "double_le (parseFloat (outputAmount (s ! (length s - 1))))
          (parseFloat (outputAmount (s ! i)))"
    unfolding s_def by (rule sortedQuotes_nth_le) (use i in simp_all)
  then have wc: "w \<le> c" using c w by (simp add: s_def double_le_Finite)
  have best: "double_le (Finite c) (parseFloat (outputAmount (s ! 0)))"
    using sortedQuotes_nth_le [of 0 i qs] i c by (simp add: s_def)
  have "small_difference fl c w (parseFloat (outputAmount (s ! 0)))"
    by (rule small_difference_close [OF acc w1 wc top best close])
  then show ?thesis
    using c w w1 by (simp add: makeRanking_def s_def [symmetric] Let_def)
qed

lemma priceAdvantage_not_finite:
  assumes "i < length (sortedQuotes qs)"
    and "parseFloat (outputAmount (sortedQuotes qs ! i)) = PosInfinity
         \<or> parseFloat (outputAmount (sortedQuotes qs ! (length (sortedQuotes qs) - 1))) = PosInfinity"
  shows "priceAdvantage (makeRanking fl (sortedQuotes qs) (i, sortedQuotes qs ! i)) = 0"
proof (cases "parseFloat (outputAmount (sortedQuotes qs ! (length (sortedQuotes qs) - 1)))")
  case PosInfinity
  then show ?thesis by (simp add: makeRanking_def)
next
  case (Finite w)
  then have "parseFloat (outputAmount (sortedQuotes qs ! i)) = PosInfinity" using assms(2) by simp
  then show ?thesis using Finite by (simp add: makeRanking_def)
qed

lemma exact_close_imp:
  assumes c: "parseFloat cn = Finite c" and w: "parseFloat wn = Finite w" and wpos: "0 < wn"
    and close: "(real cn - real wn) / real wn < 1 / 10000"
  shows "1000000000 * (c - w) < 100001 * w"
proof -
  have a: "2 ^ 53 * c \<le> (2 ^ 53 + 1) * real cn" using parseFloat_rel_error(1) [OF c] .
  have b: "(2 ^ 53 - 1) * real wn \<le> 2 ^ 53 * w" using parseFloat_rel_error(2) [OF w] .
  have "0 < real wn" using wpos by simp
  then have d: "10000 * real cn < 10001 * real wn" using close by (simp add: field_simps)
  show ?thesis using a b d \<open>0 < real wn\<close> by simp
qed

text \<open>
  Claim C8. Let every float operation round with a relative error of at most \<open>10^-5\<close>
  and an absolute error of at most \<open>10^-10\<close> on arguments up to \<open>2^1023\<close> (IEEE 754
  doubles round to nearest: relative error \<open>2^-53\<close>, absolute error \<open>2^-1075\<close> near
  zero). For every ranked quote whose output amount exceeds that of the worst-ranked
  quote (the last entry) by less than 0.01% of the latter, measured on the amounts
  themselves or on their doubles, \<^verbatim>\<open>priceAdvantage\<close> is exactly \<open>0\<close>. The code divides the
  difference by the best output, which is at least the worst, so its test is met.
\<close>

theorem priceAdvantage_noise_snap:
  assumes "\<forall>x. \<bar>x\<bar> \<le> 2 ^ 1023 \<longrightarrow> \<bar>fl x - x\<bar> \<le> \<bar>x\<bar> / 100000 + 1 / 10000000000"
    and "r \<in> set (calculateRankings fl qs)"
  shows "((real (outputAmount (quote r))
            - real (outputAmount (quote (last (calculateRankings fl qs)))))
          / real (outputAmount (quote (last (calculateRankings fl qs)))) < 1 / 10000
          \<longrightarrow> priceAdvantage r = 0)
     \<and> (\<forall>currentOutput worstOutput.
          parseFloat (outputAmount (quote r)) = Finite currentOutput
          \<and> parseFloat (outputAmount (quote (last (calculateRankings fl qs)))) = Finite worstOutput
          \<and> (currentOutput - worstOutput) / worstOutput < 1 / 10000
          \<longrightarrow> priceAdvantage r = 0)"
proof -
  define s where "s = sortedQuotes qs"
  from assms(2) obtain i where i: "i < length s" and r: "r = calculateRankings fl qs ! i"
    by (auto simp: in_set_conv_nth length_calculateRankings s_def)
  have r': "r = makeRanking fl s (i, s ! i)"
    using r i by (simp add: nth_calculateRankings s_def)
  have q: "quote r = s ! i" using r' by (simp add: makeRanking_def)
  have ne: "calculateRankings fl qs \<noteq> []" using assms(2) by auto
  have "quote (last (calculateRankings fl qs)) = last (map quote (calculateRankings fl qs))"
    using ne by (simp add: last_map)
  also have "\<dots> = last s"
    by (simp add: map_quote_calculateRankings s_def)
  also have "\<dots> = s ! (length s - 1)"
    using i by (intro last_conv_nth) auto
  finally have l: "quote (last (calculateRankings fl qs)) = s ! (length s - 1)" .
  have len: "0 < length s" using i by (cases s) simp_all
  have "s ! (length s - 1) \<in> set s" using len by (intro nth_mem) simp
  then have wpos: "0 < outputAmount (s ! (length s - 1))" by (simp add: s_def set_sortedQuotes)
  have slack: "priceAdvantage r = 0"
    if "parseFloat (outputAmount (s ! i)) = Finite c"
      "parseFloat (outputAmount (s ! (length s - 1))) = Finite w"
      "1000000000 * (c - w) < 100001 * w" for c w
    unfolding r' s_def
    by (rule priceAdvantage_close [OF assms(1)]) (use i that in \<open>simp_all add: s_def\<close>)
  have A: "priceAdvantage r = 0"
    if close: "(real (outputAmount (s ! i)) - real (outputAmount (s ! (length s - 1))))
          / real (outputAmount (s ! (length s - 1))) < 1 / 10000"
  proof (cases "parseFloat (outputAmount (s ! i))")
    case PosInfinity
    then show ?thesis
      unfolding r' s_def using i by (intro priceAdvantage_not_finite) (simp_all add: s_def)
  next
    case c: (Finite c)
    show ?thesis
    proof (cases "parseFloat (outputAmount (s ! (length s - 1)))")
      case PosInfinity
      then show ?thesis
        unfolding r' s_def using i by (intro priceAdvantage_not_finite) (simp_all add: s_def)
    next
      case w: (Finite w)
      show ?thesis
        by (rule slack [OF c w]) (rule exact_close_imp [OF c w wpos close])
    qed
  qed
  have B: "priceAdvantage r = 0"
    if "parseFloat (outputAmount (s ! i)) = Finite c"
      "parseFloat (outputAmount (s ! (length s - 1))) = Finite w"
      "(c - w) / w < 1 / 10000" for c w
  proof -
    have "1 \<le> w" using parseFloat_Finite_bounds(1) [OF that(2) wpos] .
    then have "1000000000 * (c - w) < 100001 * w" using that(3) by (simp add: field_simps)
    then show ?thesis by (rule slack [OF that(1,2)])
  qed
  show ?thesis unfolding q l using A B by blast
qed

theorem priceAdvantage_noise_snap_witness:
  "priceAdvantage (calculateRankings noRounding closePair ! 0) = 0"
proof -
  have a: "\<forall>x. \<bar>x\<bar> \<le> 2 ^ 1023 \<longrightarrow> \<bar>noRounding x - x\<bar> \<le> \<bar>x\<bar> / 100000 + 1 / 10000000000"
    by (simp add: noRounding_def)
  have len: "length (calculateRankings noRounding closePair) = 2"
    by (simp only: length_calculateRankings sortedQuotes_closePair) (simp add: closePair_def)
  have q: "map quote (calculateRankings noRounding closePair) = closePair"
    by (simp only: map_quote_calculateRankings sortedQuotes_closePair)
  have "quote (calculateRankings noRounding closePair ! 0) =
          map quote (calculateRankings noRounding closePair) ! 0"
    using len by (simp add: nth_map)
  then have q0: "quote (calculateRankings noRounding closePair ! 0) = quoteOf 1000050"
    by (simp only: q) (simp add: closePair_def)
  have "calculateRankings noRounding closePair \<noteq> []" using len by auto
  then have "quote (last (calculateRankings noRounding closePair)) =
          last (map quote (calculateRankings noRounding closePair))"
    by (simp add: last_map)
  then have ql: "quote (last (calculateRankings noRounding closePair)) = quoteOf 1000000"
    by (simp only: q) (simp add: closePair_def)
  have b: "calculateRankings noRounding closePair ! 0 \<in> set (calculateRankings noRounding closePair)"
    using len by simp
  show ?thesis
    using priceAdvantage_noise_snap [OF a b] by (simp add: q0 ql quoteOf_sel)
qed


section \<open>Simulation orchestrator: the best quote\<close>

lemma rankings_facts:
  assumes "calculateRankings fl qs \<noteq> []"
  shows "rank (calculateRankings fl qs ! 0) = 1"
    and "quote (calculateRankings fl qs ! 0) \<in> set qs"
    and "success (quote (calculateRankings fl qs ! 0))"
    and "0 < outputAmount (quote (calculateRankings fl qs ! 0))"
    and "\<And>q. q \<in> set qs \<Longrightarrow> success q \<Longrightarrow> 0 < outputAmount q \<Longrightarrow>
           double_le (parseFloat (outputAmount q))
             (parseFloat (outputAmount (quote (calculateRankings fl qs ! 0))))"
proof -
  define s where "s = sortedQuotes qs"
  have len: "0 < length s" using assms by (cases s) (simp_all add: s_def calculateRankings_eq)
  have r0: "calculateRankings fl qs ! 0 = makeRanking fl s (0, s ! 0)"
    using len by (simp add: nth_calculateRankings s_def)
  have q0: "quote (calculateRankings fl qs ! 0) = s ! 0" by (simp add: r0 makeRanking_def)
  show "rank (calculateRankings fl qs ! 0) = 1" by (simp add: r0 makeRanking_def)
  have "s ! 0 \<in> set s" using len by (intro nth_mem)
  then have mem: "s ! 0 \<in> {q \<in> set qs. success q \<and> 0 < outputAmount q}"
    by (simp only: s_def set_sortedQuotes)
  then show "quote (calculateRankings fl qs ! 0) \<in> set qs"
    and "success (quote (calculateRankings fl qs ! 0))"
    and "0 < outputAmount (quote (calculateRankings fl qs ! 0))"
    by (simp_all add: q0)
  show "double_le (parseFloat (outputAmount q))
             (parseFloat (outputAmount (quote (calculateRankings fl qs ! 0))))"
    if "q \<in> set qs" "success q" "0 < outputAmount q" for q
  proof -
    have "q \<in> set s" using that by (simp add: s_def set_sortedQuotes)
    then obtain k where k: "k < length s" "s ! k = q" by (auto simp: in_set_conv_nth)
    have "double_le (parseFloat (outputAmount (s ! k))) (parseFloat (outputAmount (s ! 0)))"
      unfolding s_def by (rule sortedQuotes_nth_le) (use k in \<open>simp_all add: s_def\<close>)
    then show ?thesis by (simp add: q0 k)
  qed
qed

lemma rising_simulation:
  "simulateWith faultText risingQuotes noRounding clock0 [v2Pool, v2Pool] 1 usdePair =
     Inr \<lparr>quotes = tiePair, bestQuote = Some (quoteOf 1000000000000000000),
          rankings = calculateRankings noRounding tiePair\<rparr>"
proof -
  have c: "collectQuotes risingQuotes clock0 1 [v2Pool, v2Pool] [] = tiePair"
    by (simp add: risingQuotes_def tiePair_def)
  have f: "filter success tiePair = tiePair" by (simp add: tiePair_def quoteOf_sel)
  have "length (calculateRankings noRounding tiePair) = length tiePair"
    by (simp only: length_calculateRankings sortedQuotes_tiePair)
  then have ne: "calculateRankings noRounding tiePair \<noteq> []"
    by (auto simp: tiePair_def)
  have "quote (calculateRankings noRounding tiePair ! 0) =
          map quote (calculateRankings noRounding tiePair) ! 0"
    using ne by (simp add: nth_map)
  then have q0: "quote (calculateRankings noRounding tiePair ! 0) = quoteOf 1000000000000000000"
    by (simp add: map_quote_calculateRankings sortedQuotes_tiePair) (simp add: tiePair_def)
  have h: "(1::nat) < 2 ^ 511" "decimals (sellToken usdePair) \<le> 80"
    by (simp_all add: usdePair_def usde_def)
  show ?thesis
    unfolding simulateWith_ok [OF h] c f using ne q0 by simp
qed

text \<open>
  Claim C10, as the code has it. In every result that \<^verbatim>\<open>simulateSwapsWithAmount\<close>
  returns, for an arbitrary per-pool call, \<^verbatim>\<open>bestQuote\<close> is \<^verbatim>\<open>null\<close> exactly when the
  rankings are empty; otherwise it is the quote of the first ranking, whose rank is \<open>1\<close>:
  a successful quote of the run with a positive output amount whose double is at least
  the double of every successful positive-output quote of the run. Its \<^verbatim>\<open>outputAmount\<close>
  is therefore maximal among those quotes except for quotes whose amounts round to the
  same double as its own. A result is returned whenever the input amount is below
  \<open>2^511\<close> and the sell token has at most \<open>80\<close> decimals.
\<close>

theorem bestQuote_is_rank_one:
  "(\<forall>sim. simulateWith msg g fl ft pools amount tp = Inr sim \<longrightarrow>
      (bestQuote sim = None \<longleftrightarrow> rankings sim = [])
      \<and> (\<forall>best. bestQuote sim = Some best \<longrightarrow>
            best = quote (rankings sim ! 0)
            \<and> rank (rankings sim ! 0) = 1
            \<and> best \<in> set (quotes sim)
            \<and> success best \<and> 0 < outputAmount best
            \<and> (\<forall>q\<in>set (quotes sim).
                  success q \<and> 0 < outputAmount q \<longrightarrow>
                    double_le (parseFloat (outputAmount q)) (parseFloat (outputAmount best))
                    \<and> (outputAmount q \<le> outputAmount best
                         \<or> parseFloat (outputAmount q) = parseFloat (outputAmount best)))))
   \<and> (amount < 2 ^ 511 \<and> decimals (sellToken tp) \<le> 80 \<longrightarrow>
        (\<exists>sim. simulateWith msg g fl ft pools amount tp = Inr sim))"
proof -
  define qs where "qs = collectQuotes g ft amount pools []"
  define rs where "rs = calculateRankings fl (filter success qs)"
  have main: "rank (rs ! 0) = 1 \<and> quote (rs ! 0) \<in> set qs \<and> success (quote (rs ! 0))
      \<and> 0 < outputAmount (quote (rs ! 0))
      \<and> (\<forall>q\<in>set qs. success q \<and> 0 < outputAmount q \<longrightarrow>
            double_le (parseFloat (outputAmount q)) (parseFloat (outputAmount (quote (rs ! 0))))
            \<and> (outputAmount q \<le> outputAmount (quote (rs ! 0))
                \<or> parseFloat (outputAmount q) = parseFloat (outputAmount (quote (rs ! 0)))))"
    if ne: "rs \<noteq> []"
  proof -
    have ne': "calculateRankings fl (filter success qs) \<noteq> []" using ne by (simp add: rs_def)
    note f = rankings_facts [OF ne']
    have "double_le (parseFloat (outputAmount q)) (parseFloat (outputAmount (quote (rs ! 0))))"
      if "q \<in> set qs" "success q" "0 < outputAmount q" for q
      using f(5) [of q] that by (simp add: rs_def)
    then show ?thesis
      using f(1-4) double_le_parseFloatD by (auto simp: rs_def)
  qed
  have A: "(bestQuote sim = None \<longleftrightarrow> rankings sim = [])
      \<and> (\<forall>best. bestQuote sim = Some best \<longrightarrow>
            best = quote (rankings sim ! 0)
            \<and> rank (rankings sim ! 0) = 1
            \<and> best \<in> set (quotes sim)
            \<and> success best \<and> 0 < outputAmount best
            \<and> (\<forall>q\<in>set (quotes sim).
                  success q \<and> 0 < outputAmount q \<longrightarrow>
                    double_le (parseFloat (outputAmount q)) (parseFloat (outputAmount best))
                    \<and> (outputAmount q \<le> outputAmount best
                         \<or> parseFloat (outputAmount q) = parseFloat (outputAmount best))))"
    if r: "simulateWith msg g fl ft pools amount tp = Inr sim" for sim
  proof -
    have sel: "quotes sim = qs" "rankings sim = rs"
      "bestQuote sim = (if rs = [] then None else Some (quote (rs ! 0)))"
      using simulateWith_InrD(2-4) [OF r] by (simp_all add: qs_def rs_def)
    show ?thesis
      unfolding sel using main by (cases "rs = []") simp_all
  qed
  have B: "\<exists>sim. simulateWith msg g fl ft pools amount tp = Inr sim"
    if "amount < 2 ^ 511 \<and> decimals (sellToken tp) \<le> 80"
    using that by (simp add: simulateWith_ok)
  show ?thesis using A B by blast
qed

theorem bestQuote_is_rank_one_witness:
  "\<exists>sim. simulateWith faultText risingQuotes noRounding clock0 [v2Pool, v2Pool] 1 usdePair = Inr sim
     \<and> rank (rankings sim ! 0) = 1
     \<and> quoteOf 1000000000000000000 = quote (rankings sim ! 0)"
  using bestQuote_is_rank_one
      [of faultText risingQuotes noRounding clock0 "[v2Pool, v2Pool]" 1 usdePair]
    rising_simulation
  by simp

text \<open>
  The claim as stated makes \<^verbatim>\<open>bestQuote\<close> a quote of maximal \<^verbatim>\<open>outputAmount\<close>. In this
  run the best quote has the amount \<open>10^18\<close> while the other successful quote has
  \<open>10^18 + 1\<close>.
\<close>

theorem bestQuote_maximal_counterexample:
  "\<exists>sim. simulateWith faultText risingQuotes noRounding clock0 [v2Pool, v2Pool] 1 usdePair = Inr sim
     \<and> bestQuote sim = Some (quoteOf 1000000000000000000)
     \<and> quoteOf 1000000000000000001 \<in> set (quotes sim)
     \<and> success (quoteOf 1000000000000000001)
     \<and> outputAmount (quoteOf 1000000000000000000) < outputAmount (quoteOf 1000000000000000001)"
  unfolding rising_simulation by (simp add: tiePair_def quoteOf_sel)

section \<open>Quote normalizer: zero output\<close>

lemma getZeroXQuote_success:
  "getZeroXQuote env tp = Some r \<Longrightarrow> success (result_quote r)"
  by (auto simp: getZeroXQuote_def Let_def split: sum.splits option.splits if_splits)

lemma getQuoteForPool_try_success:
  "getQuoteForPool_try env t p amount tp = Inr q \<Longrightarrow> success q"
  by (auto simp: getQuoteForPool_try_def successQuote_def andThen_def
      dest: getZeroXQuote_success split: option.splits sum.splits if_splits prod.splits)

lemma getQuoteForPoolWithAmount_failed_zero:
  assumes "getQuoteForPoolWithAmount env t p amount tp = Inr q" and "\<not> success q"
  shows "outputAmount q = 0"
proof (cases "getQuoteForPool_try env t p amount tp")
  case (Inr q')
  then have "q = q'" using assms(1) by (simp add: getQuoteForPoolWithAmount_def)
  then show ?thesis using getQuoteForPool_try_success [OF Inr] assms(2) by simp
next
  case (Inl m)
  then have "q = failedQuote p amount t m"
    using assms(1)
    by (auto simp: getQuoteForPoolWithAmount_def andThen_def split: sum.splits)
  then show ?thesis by (simp add: failedQuote_sel)
qed

lemma getQuoteForPoolWithAmount_returned:
  assumes "dex p \<noteq> ''zerox''" and "quoterFor env p amount = Inr (Some out)"
    and "amount < 2 ^ 511" and "out < 2 ^ 511"
    and "decimals (tokens_base p) \<le> 80" and "decimals (tokens_quote p) \<le> 80"
  shows "getQuoteForPoolWithAmount env t p amount tp = Inr (successQuote env p tp amount out t)"
  using assms
  by (simp add: getQuoteForPoolWithAmount_def getQuoteForPool_try_def formatUnits_ok)

text \<open>
  Claim C3, as the code has it. A quote that is not successful has the output amount
  \<open>0\<close>, and a quote with the output amount \<open>0\<close> is never ranked and never the best quote,
  whatever its \<^verbatim>\<open>success\<close> flag says. The converse direction of the claim fails: a quoter
  that returns \<open>0\<close> yields a quote with \<^verbatim>\<open>success == true\<close> (here for an input amount
  and token decimals that \<^verbatim>\<open>formatUnits\<close> accepts).
\<close>

theorem zero_output_never_ranked:
  "(\<forall>q. getQuoteForPoolWithAmount env t p amount tp = Inr q \<longrightarrow>
        \<not> success q \<longrightarrow> outputAmount q = 0)
   \<and> (\<forall>sim. simulateSwapsWithAmount env fl startTime failTime pools amount tp = Inr sim \<longrightarrow>
         (\<forall>q\<in>set (quotes sim). \<not> success q \<longrightarrow> outputAmount q = 0)
         \<and> (\<forall>r\<in>set (rankings sim). success (quote r) \<and> 0 < outputAmount (quote r))
         \<and> (\<forall>b. bestQuote sim = Some b \<longrightarrow> success b \<and> 0 < outputAmount b))
   \<and> (dex p \<noteq> ''zerox'' \<and> quoterFor env p amount = Inr (Some 0) \<and> amount < 2 ^ 511
        \<and> decimals (tokens_base p) \<le> 80 \<and> decimals (tokens_quote p) \<le> 80 \<longrightarrow>
        (\<exists>q. getQuoteForPoolWithAmount env t p amount tp = Inr q
           \<and> success q \<and> outputAmount q = 0))"
proof -
  define g where "g = (\<lambda>i p. getQuoteForPoolWithAmount env (startTime i) p amount tp)"
  define qs where "qs = collectQuotes g failTime amount pools []"
  define rs where "rs = calculateRankings fl (filter success qs)"
  have a: "outputAmount q = 0" if "q \<in> set qs" "\<not> success q" for q
  proof -
    from that(1) obtain i where i: "i < length pools" and q: "q = qs ! i"
      by (auto simp: in_set_conv_nth qs_def length_collectQuotes)
    have eq: "q = quoteOrFailed g failTime amount i (pools ! i)"
      using i by (simp add: q qs_def nth_collectQuotes)
    show ?thesis
    proof (cases "g i (pools ! i)")
      case (Inl m)
      then show ?thesis by (simp add: eq quoteOrFailed_def failedQuote_sel)
    next
      case (Inr q')
      then have "q = q'" by (simp add: eq quoteOrFailed_def)
      then show ?thesis
        using Inr that(2) getQuoteForPoolWithAmount_failed_zero by (simp add: g_def)
    qed
  qed
  have b: "success (quote r) \<and> 0 < outputAmount (quote r)" if "r \<in> set rs" for r
    using set_calculateRankings [of r fl "filter success qs"] that by (simp add: rs_def)
  have c: "success (quote (rs ! 0)) \<and> 0 < outputAmount (quote (rs ! 0))" if "rs \<noteq> []"
    using b [of "rs ! 0"] that by simp
  have B: "(\<forall>q\<in>set (quotes sim). \<not> success q \<longrightarrow> outputAmount q = 0)
         \<and> (\<forall>r\<in>set (rankings sim). success (quote r) \<and> 0 < outputAmount (quote r))
         \<and> (\<forall>b. bestQuote sim = Some b \<longrightarrow> success b \<and> 0 < outputAmount b)"
    if r: "simulateSwapsWithAmount env fl startTime failTime pools amount tp = Inr sim" for sim
  proof -
    have r': "simulateWith (faultMessage env) g fl failTime pools amount tp = Inr sim"
      using r by (simp add: simulateSwapsWithAmount_def g_def)
    have sel: "quotes sim = qs" "rankings sim = rs"
      "bestQuote sim = (if rs = [] then None else Some (quote (rs ! 0)))"
      using simulateWith_InrD(2-4) [OF r'] by (simp_all add: qs_def rs_def)
    show ?thesis unfolding sel using a b c by auto
  qed
  have C: "\<exists>q. getQuoteForPoolWithAmount env t p amount tp = Inr q
           \<and> success q \<and> outputAmount q = 0"
    if "dex p \<noteq> ''zerox'' \<and> quoterFor env p amount = Inr (Some 0) \<and> amount < 2 ^ 511
        \<and> decimals (tokens_base p) \<le> 80 \<and> decimals (tokens_quote p) \<le> 80"
  proof -
    have "getQuoteForPoolWithAmount env t p amount tp = Inr (successQuote env p tp amount 0 t)"
      using that by (intro getQuoteForPoolWithAmount_returned) simp_all
    then show ?thesis by (simp add: successQuote_def)
  qed
  show ?thesis
    using getQuoteForPoolWithAmount_failed_zero B C by blast
qed

theorem zero_output_never_ranked_witness:
  "getQuoteForPoolWithAmount offlineEnv 7 v2Pool 5 usdePair =
     Inr (failedQuote v2Pool 5 7 ''network error'')
   \<and> outputAmount (failedQuote v2Pool 5 7 ''network error'') = 0"
proof -
  have a: "getQuoteForPoolWithAmount offlineEnv 7 v2Pool 5 usdePair =
          Inr (failedQuote v2Pool 5 7 ''network error'')"
    by (simp add: getQuoteForPoolWithAmount_def getQuoteForPool_try_def quoterFor_def v2Pool_def
        poolOn_def getUniswapV2Quote_def offlineEnv_def formatUnits_def usde_def)
  have b: "\<not> success (failedQuote v2Pool 5 7 ''network error'')"
    by (simp add: failedQuote_def)
  have "outputAmount (failedQuote v2Pool 5 7 ''network error'') = 0"
    using zero_output_never_ranked [of offlineEnv 7 v2Pool 5 usdePair] a b by blast
  then show ?thesis using a by simp
qed

text \<open>
  The claim as stated: \<^verbatim>\<open>outputAmount == 0\<close> implies \<^verbatim>\<open>success == false\<close>. The Balancer
  quoter returns \<^verbatim>\<open>inputAmount / 10^12\<close> for an 18-decimal base and a 6-decimal quote
  token, which is \<open>0\<close> for the input amount \<open>1\<close>, and the quote is marked successful.
\<close>

theorem zero_output_success_counterexample:
  "getQuoteForPoolWithAmount offlineEnv 0 balancerPool 1 usdePair =
     Inr (successQuote offlineEnv balancerPool usdePair 1 0 0)
   \<and> success (successQuote offlineEnv balancerPool usdePair 1 0 0)
   \<and> outputAmount (successQuote offlineEnv balancerPool usdePair 1 0 0) = 0"
  by (simp add: getQuoteForPoolWithAmount_def getQuoteForPool_try_def quoterFor_def
      balancerPool_def poolOn_def getBalancerQuote_def decimalAdjust_def bigint_pow10_def
      usde_def usdt_def successQuote_def formatUnits_def offlineEnv_def)

section \<open>Uniswap V3 tick alignment: nearest usable tick\<close>

lemma math_round_div_bounds:
  assumes "0 < S"
  shows "2 * (math_round_div T S * S) \<le> 2 * T + S" and "2 * T - S < 2 * (math_round_div T S * S)"
proof -
  define q where "q = (2 * T + S) div (2 * S)"
  have pos: "0 < 2 * S" using assms by simp
  have "(2 * S) * q \<le> 2 * T + S"
  proof -
    have "0 \<le> (2 * T + S) mod (2 * S)" using pos by (rule pos_mod_sign)
    moreover have "2 * T + S = (2 * S) * q + (2 * T + S) mod (2 * S)" by (simp add: q_def)
    ultimately show ?thesis by linarith
  qed
  then show "2 * (math_round_div T S * S) \<le> 2 * T + S"
    by (simp add: math_round_div_def q_def algebra_simps)
  have "2 * T + S < (2 * S) * q + 2 * S"
  proof -
    have "(2 * T + S) mod (2 * S) < 2 * S" using pos by (rule pos_mod_bound)
    moreover have "2 * T + S = (2 * S) * q + (2 * T + S) mod (2 * S)" by (simp add: q_def)
    ultimately show ?thesis by linarith
  qed
  then show "2 * T - S < 2 * (math_round_div T S * S)"
    by (simp add: math_round_div_def q_def algebra_simps)
qed

lemma math_round_div_nearest:
  assumes "0 < S"
  shows "\<bar>math_round_div T S * S - T\<bar> \<le> \<bar>m * S - T\<bar>"
proof (cases "m = math_round_div T S")
  case True
  then show ?thesis by simp
next
  case False
  define q where "q = math_round_div T S"
  have b: "2 * (q * S) \<le> 2 * T + S" "2 * T - S < 2 * (q * S)"
    using math_round_div_bounds [OF assms, of T] by (simp_all add: q_def)
  have "m \<le> q - 1 \<or> q + 1 \<le> m" using False unfolding q_def by linarith
  then show ?thesis
  proof
    assume "m \<le> q - 1"
    then have "m * S \<le> (q - 1) * S" using assms by (simp add: mult_right_mono)
    then have "m * S \<le> q * S - S" by (simp add: algebra_simps)
    then show ?thesis using b unfolding q_def [symmetric] by linarith
  next
    assume "q + 1 \<le> m"
    then have "(q + 1) * S \<le> m * S" using assms by (simp add: mult_right_mono)
    then have "q * S + S \<le> m * S" by (simp add: algebra_simps)
    then show ?thesis using b unfolding q_def [symmetric] by linarith
  qed
qed

lemma multiple_below:
  assumes "0 < (S::int)" and "m * S < q * S"
  shows "m * S \<le> q * S - S"
proof -
  have "m < q" using assms by (simp add: mult_less_cancel_right)
  then have "m \<le> q - 1" by simp
  then have "m * S \<le> (q - 1) * S" using assms(1) by (simp add: mult_right_mono)
  then show ?thesis by (simp add: algebra_simps)
qed

lemma multiple_above:
  assumes "0 < (S::int)" and "q * S < m * S"
  shows "q * S + S \<le> m * S"
proof -
  have "q < m" using assms by (simp add: mult_less_cancel_right)
  then have "q + 1 \<le> m" by simp
  then have "(q + 1) * S \<le> m * S" using assms(1) by (simp add: mult_right_mono)
  then show ?thesis by (simp add: algebra_simps)
qed

lemma nearestUsableTick_in_range:
  assumes "0 < S" and "- 887272 \<le> T" and "T \<le> 887272"
  shows "nearestUsableTick T S =
     Inr (if math_round_div T S * S < - 887272 then math_round_div T S * S + S
          else if 887272 < math_round_div T S * S then math_round_div T S * S - S
          else math_round_div T S * S)"
  using assms by (simp add: nearestUsableTick_def MIN_TICK_def MAX_TICK_def Let_def)

text \<open>
  The manual alignment runs only when the SDK call throws, which for a positive
  spacing is the case of a raw tick beyond the bounds: the result is then the nearest
  multiple clamped to the bound.
\<close>

lemma alignTick_out_of_range:
  assumes "0 < S" and "\<not> (- 887272 \<le> T \<and> T \<le> 887272)"
  shows "alignTick T S = max (- 887272) (min 887272 (math_round_div T S * S))"
  using assms
  by (auto simp: alignTick_def nearestUsableTick_def manualAlign_def MIN_TICK_def MAX_TICK_def
      Let_def)

text \<open>
  Claim C4, as the code has it. For a tick spacing \<open>S > 0\<close> and a raw tick \<open>T\<close> within
  \<open>[-887272, 887272]\<close> (the ticks a V3 pool reports), the SDK's \<^verbatim>\<open>nearestUsableTick\<close>
  returns and its value is the aligned tick: a multiple of \<open>S\<close> within the bounds, and
  among the multiples of \<open>S\<close> within the bounds the one nearest to \<open>T\<close>. It is the
  multiple of \<open>S\<close> nearest to \<open>T\<close> when that lies within the bounds; when the nearest
  multiple lies beyond a bound the aligned tick is not that bound but the multiple one
  spacing further in.
\<close>

theorem alignTick_nearest_usable:
  assumes "0 < S" and "- 887272 \<le> T" and "T \<le> 887272"
  shows "nearestUsableTick T S = Inr (alignTick T S)
     \<and> alignTick T S mod S = 0
     \<and> - 887272 \<le> alignTick T S \<and> alignTick T S \<le> 887272
     \<and> (\<forall>m. - 887272 \<le> m * S \<and> m * S \<le> 887272 \<longrightarrow>
            \<bar>alignTick T S - T\<bar> \<le> \<bar>m * S - T\<bar>)
     \<and> (\<forall>m. \<bar>math_round_div T S * S - T\<bar> \<le> \<bar>m * S - T\<bar>)
     \<and> (- 887272 \<le> math_round_div T S * S \<and> math_round_div T S * S \<le> 887272 \<longrightarrow>
            alignTick T S = math_round_div T S * S)
     \<and> (887272 < math_round_div T S * S \<longrightarrow> alignTick T S = math_round_div T S * S - S)
     \<and> (math_round_div T S * S < - 887272 \<longrightarrow> alignTick T S = math_round_div T S * S + S)"
proof -
  define q where "q = math_round_div T S"
  define a where "a = alignTick T S"
  have sdk: "nearestUsableTick T S =
     Inr (if q * S < - 887272 then q * S + S else if 887272 < q * S then q * S - S else q * S)"
    unfolding q_def by (rule nearestUsableTick_in_range [OF assms])
  have a: "a = (if q * S < - 887272 then q * S + S else if 887272 < q * S then q * S - S else q * S)"
    by (simp add: a_def alignTick_def sdk)
  have b: "2 * (q * S) \<le> 2 * T + S" "2 * T - S < 2 * (q * S)"
    using math_round_div_bounds [OF assms(1), of T] by (simp_all add: q_def)
  have near: "\<bar>q * S - T\<bar> \<le> \<bar>m * S - T\<bar>" for m
    unfolding q_def by (rule math_round_div_nearest [OF assms(1)])
  have c1: "nearestUsableTick T S = Inr a" by (simp add: sdk a)
  have c2: "a mod S = 0"
  proof -
    have "(q * S + S) mod S = 0" "(q * S - S) mod S = 0" "(q * S) mod S = 0"
      by (simp_all add: mod_diff_eq [symmetric])
    then show ?thesis by (simp add: a)
  qed
  consider (low) "q * S < - 887272" | (high) "887272 < q * S"
    | (mid) "- 887272 \<le> q * S" "q * S \<le> 887272"
    by linarith
  then have c3: "- 887272 \<le> a \<and> a \<le> 887272
      \<and> (\<forall>m. - 887272 \<le> m * S \<and> m * S \<le> 887272 \<longrightarrow> \<bar>a - T\<bar> \<le> \<bar>m * S - T\<bar>)"
  proof cases
    case mid
    then have "a = q * S" by (simp add: a)
    then show ?thesis using mid near by simp
  next
    case high
    then have av: "a = q * S - S" using assms by (simp add: a)
    have "0 * S < q * S" using high by simp
    then have "0 * S \<le> q * S - S" using assms(1) by (rule multiple_below [rotated])
    then have lo: "- 887272 \<le> a" by (simp add: av)
    have hi: "a \<le> 887272" "a \<le> T" using b assms by (simp_all add: av)
    have "\<bar>a - T\<bar> \<le> \<bar>m * S - T\<bar>" if m: "m * S \<le> 887272" for m
    proof -
      have "m * S < q * S" using m high by linarith
      then have "m * S \<le> q * S - S" using assms(1) by (rule multiple_below [rotated])
      then show ?thesis using hi(2) by (simp add: av)
    qed
    then show ?thesis using lo hi by simp
  next
    case low
    then have av: "a = q * S + S" by (simp add: a)
    have "q * S < 0 * S" using low by simp
    then have "q * S + S \<le> 0 * S" using assms(1) by (rule multiple_above [rotated])
    then have hi: "a \<le> 887272" by (simp add: av)
    have lo: "- 887272 \<le> a" "T \<le> a" using b assms by (simp_all add: av)
    have "\<bar>a - T\<bar> \<le> \<bar>m * S - T\<bar>" if m: "- 887272 \<le> m * S" for m
    proof -
      have "q * S < m * S" using m low by linarith
      then have "q * S + S \<le> m * S" using assms(1) by (rule multiple_above [rotated])
      then show ?thesis using lo(2) by (simp add: av)
    qed
    then show ?thesis using lo hi by simp
  qed
  have c4: "(- 887272 \<le> q * S \<and> q * S \<le> 887272 \<longrightarrow> a = q * S)
     \<and> (887272 < q * S \<longrightarrow> a = q * S - S)
     \<and> (q * S < - 887272 \<longrightarrow> a = q * S + S)"
    by (simp add: a)
  show ?thesis
    using c1 c2 c3 c4 near unfolding a_def q_def by blast
qed

theorem alignTick_nearest_usable_witness:
  "alignTick 201234 60 = 201240 \<and> alignTick 201234 60 mod 60 = 0
   \<and> nearestUsableTick 201234 60 = Inr 201240"
proof -
  have c: "math_round_div 201234 60 * 60 = 201240" by (simp add: math_round_div_def)
  have "alignTick 201234 60 = 201240"
    using alignTick_nearest_usable [of 60 201234] c by simp
  then show ?thesis
    using alignTick_nearest_usable [of 60 201234] by simp
qed

text \<open>
  The claim as stated makes the aligned tick the nearest multiple of the spacing,
  clamped to the bounds. For the raw tick \<open>887271\<close> and the spacing \<open>60\<close> (the 0.3% fee
  tier) the nearest multiple is \<open>887280\<close>, which clamped to the bounds is \<open>887272\<close>; the
  aligned tick is \<open>887220\<close>.
\<close>

theorem alignTick_not_clamped_counterexample:
  "alignTick 887271 60 = 887220
   \<and> math_round_div 887271 60 * 60 = 887280
   \<and> max (- 887272) (min 887272 (math_round_div 887271 60 * 60)) = 887272
   \<and> (887272::int) mod 60 = 52"
  by (simp add: alignTick_def nearestUsableTick_def math_round_div_def MIN_TICK_def MAX_TICK_def)

section \<open>Fluid quoter: order of the strategies\<close>

lemma toLowerCase_target:
  "toLowerCase ''0xf063BD202E45d6b2843102cb4EcE339026645D4a'' = ''0xf063bd202e45d6b2843102cb4ece339026645d4a''"
  by (simp add: toLowerCase_def lower_char_def)

lemma toLowerCase_other:
  "toLowerCase ''0x0B1a513ee24972DAEf112bC777a5610d4325C9e7'' = ''0x0b1a513ee24972daef112bc777a5610d4325c9e7''"
  by (simp add: toLowerCase_def lower_char_def)

lemma floor_times_ok:
  assumes "n < 2 ^ 511" shows "\<exists>v. floor_times_0_9998 msg n = Inr v"
  using parseFloat_finite [OF assms] by (auto simp: floor_times_0_9998_def)

lemma decimalAdjust_ok:
  assumes "decimals (tokens_base p) \<le> 80"
    and "decimals (tokens_quote p) \<le> decimals (tokens_base p) + 308"
  shows "\<exists>v. decimalAdjust env p a = Inr v"
  using assms by (auto simp: decimalAdjust_def bigint_pow10_def Let_def)

lemma getFluidEstimatedQuote_ok:
  assumes "amount < 2 ^ 511" and "decimals (tokens_base p) \<le> 80"
    and "decimals (tokens_quote p) \<le> decimals (tokens_base p) + 308"
  shows "\<exists>v. getFluidEstimatedQuote env p amount = Inr v"
proof (cases "fluidEstimate_try env p amount")
  case (Inr v)
  then show ?thesis by (simp add: getFluidEstimatedQuote_def formatUnits_ok [OF assms(1,2)])
next
  case (Inl e)
  obtain b where b: "floor_times_0_9998 (faultMessage env) amount = Inr b"
    using floor_times_ok [OF assms(1)] by blast
  obtain v where "decimalAdjust env p b = Inr v" using decimalAdjust_ok [OF assms(2,3)] by blast
  then show ?thesis
    using Inl b by (simp add: getFluidEstimatedQuote_def formatUnits_ok [OF assms(1,2)])
qed

lemma getFluid_throws:
  assumes "\<not> (amount < 2 ^ 511 \<and> decimals (tokens_base p) \<le> 80)"
  shows "\<exists>e. getFluidQuote env p amount = (Inl e, []) \<and> getFluidEstimatedQuote env p amount = Inl e"
proof -
  obtain e where "formatUnits (faultMessage env) (Some amount) (decimals (tokens_base p)) = Inl e"
    using formatUnits_throws [OF assms] by blast
  then show ?thesis by (simp add: getFluidQuote_def getFluidEstimatedQuote_def)
qed

lemma floor_times_e18: "floor_times_0_9998 msg 1000000000000000000 = Inr 999800000000000000"
  by (simp add: floor_times_0_9998_def parseFloat_e18 round53_def bitlength.simps Let_def)

lemma estimate_other:
  "getFluidEstimatedQuote fluidOnlineEnv fluidOtherPool 1000000000000000000 = Inr 999800"
  by (simp add: getFluidEstimatedQuote_def fluidEstimate_try_def stablecoins_def floor_times_e18
      fluidOtherPool_def poolOn_def usde_def usdt_def decimalAdjust_def bigint_pow10_def
      formatUnits_def)

text \<open>
  Claim C5, as the code has it. The quoter first formats the input amount, outside its
  \<^verbatim>\<open>try\<close>: for an amount from \<open>2^511\<close> on, or a base token with more than \<open>80\<close> decimals,
  it throws before any strategy is attempted, and so does the estimation. Otherwise,
  for the USDe/USDT pool at the address \<^verbatim>\<open>0xf063bd20...5d4a\<close> the quoter calls the
  reserve-based price-impact calculation first, the swap simulation (which decodes the
  \<^verbatim>\<open>FluidDexSwapResult\<close> revert) only when the price-impact calculation throws, and the
  estimation only when both throw; the result of the first method that returns is the
  quote and no later method is called. For every other Fluid pool only the estimation is
  called. The estimation returns without throwing when, in addition, the quote token has
  at most \<open>308\<close> decimals more than the base token.
\<close>

theorem getFluidQuote_order:
  "(amount < 2 ^ 511 \<and> decimals (tokens_base p) \<le> 80 \<longrightarrow>
      (isFluidTarget p \<longrightarrow>
         (\<forall>v. fluidRealPriceImpactQuote env p amount = Inr v \<longrightarrow>
            getFluidQuote env p amount = (Inr v, [RealPriceImpact]))
         \<and> (\<forall>e v. fluidRealPriceImpactQuote env p amount = Inl e
                \<and> fluidLiveQuote env p amount = Inr v \<longrightarrow>
            getFluidQuote env p amount = (Inr v, [RealPriceImpact, LiveQuote]))
         \<and> (\<forall>e e' v. fluidRealPriceImpactQuote env p amount = Inl e
                \<and> fluidLiveQuote env p amount = Inl e'
                \<and> getFluidEstimatedQuote env p amount = Inr v \<longrightarrow>
            getFluidQuote env p amount =
              (Inr v, [RealPriceImpact, LiveQuote, EstimationFallback])))
      \<and> (\<not> isFluidTarget p \<longrightarrow>
           (\<forall>v. getFluidEstimatedQuote env p amount = Inr v \<longrightarrow>
              getFluidQuote env p amount = (Inr v, [EstimationFallback])))
      \<and> (decimals (tokens_quote p) \<le> decimals (tokens_base p) + 308 \<longrightarrow>
           (\<exists>v. getFluidEstimatedQuote env p amount = Inr v)))
   \<and> (\<not> (amount < 2 ^ 511 \<and> decimals (tokens_base p) \<le> 80) \<longrightarrow>
        (\<exists>e. getFluidQuote env p amount = (Inl e, [])
           \<and> getFluidEstimatedQuote env p amount = Inl e))"
proof -
  have A: "(isFluidTarget p \<longrightarrow>
         (\<forall>v. fluidRealPriceImpactQuote env p amount = Inr v \<longrightarrow>
            getFluidQuote env p amount = (Inr v, [RealPriceImpact]))
         \<and> (\<forall>e v. fluidRealPriceImpactQuote env p amount = Inl e
                \<and> fluidLiveQuote env p amount = Inr v \<longrightarrow>
            getFluidQuote env p amount = (Inr v, [RealPriceImpact, LiveQuote]))
         \<and> (\<forall>e e' v. fluidRealPriceImpactQuote env p amount = Inl e
                \<and> fluidLiveQuote env p amount = Inl e'
                \<and> getFluidEstimatedQuote env p amount = Inr v \<longrightarrow>
            getFluidQuote env p amount =
              (Inr v, [RealPriceImpact, LiveQuote, EstimationFallback])))
      \<and> (\<not> isFluidTarget p \<longrightarrow>
           (\<forall>v. getFluidEstimatedQuote env p amount = Inr v \<longrightarrow>
              getFluidQuote env p amount = (Inr v, [EstimationFallback])))"
    if ok: "amount < 2 ^ 511 \<and> decimals (tokens_base p) \<le> 80"
  proof -
    have f: "formatUnits (faultMessage env) (Some amount) (decimals (tokens_base p)) =
               Inr (amount, decimals (tokens_base p))"
      using ok by (simp add: formatUnits_ok)
    show ?thesis
      by (auto simp: getFluidQuote_def f isFluidTarget_def estimation_with_catch_def Let_def)
  qed
  have B: "\<exists>v. getFluidEstimatedQuote env p amount = Inr v"
    if "amount < 2 ^ 511 \<and> decimals (tokens_base p) \<le> 80"
      "decimals (tokens_quote p) \<le> decimals (tokens_base p) + 308"
    using that by (intro getFluidEstimatedQuote_ok) simp_all
  show ?thesis
    using A B getFluid_throws [of amount p env] by blast
qed

theorem getFluidQuote_order_witness:
  "getFluidQuote fluidOnlineEnv fluidTargetPool 1000000000000000000 = (Inr 100, [RealPriceImpact])
   \<and> (\<exists>v. getFluidEstimatedQuote fluidOnlineEnv fluidTargetPool 1000000000000000000 = Inr v)"
proof -
  have t: "isFluidTarget fluidTargetPool"
    by (simp add: isFluidTarget_def fluidTargetPool_def poolOn_def toLowerCase_target usde_def usdt_def)
  have r: "fluidRealPriceImpactQuote fluidOnlineEnv fluidTargetPool 1000000000000000000 = Inr 100"
    by (simp add: fluidOnlineEnv_def offlineEnv_def)
  have s: "(1000000000000000000::nat) < 2 ^ 511" by simp
  have d: "decimals (tokens_base fluidTargetPool) \<le> 80"
    "decimals (tokens_quote fluidTargetPool) \<le> decimals (tokens_base fluidTargetPool) + 308"
    by (simp_all add: fluidTargetPool_def poolOn_def usde_def usdt_def)
  show ?thesis
    using getFluidQuote_order [of 1000000000000000000 fluidTargetPool fluidOnlineEnv] t r s d
    by blast
qed

text \<open>
  The claim as stated puts the swap simulation first and lets the estimation never
  throw. Here both the price-impact calculation and the swap simulation would return
  (\<open>100\<close> and \<open>200\<close>): the quote is the price-impact result \<open>100\<close> and the swap simulation
  is not called. For a Fluid pool at another address only the estimation is called.
  And for the input amount \<open>2^511\<close> the estimation throws, in its first statement, the
  overflow error of \<^verbatim>\<open>ethers.formatUnits\<close>; so does the quoter, before any strategy.
\<close>

theorem getFluidQuote_order_counterexample:
  "getFluidQuote fluidOnlineEnv fluidTargetPool 1000000000000000000 = (Inr 100, [RealPriceImpact])
   \<and> fluidLiveQuote fluidOnlineEnv fluidTargetPool 1000000000000000000 = Inr 200
   \<and> getFluidQuote fluidOnlineEnv fluidOtherPool 1000000000000000000 = (Inr 999800, [EstimationFallback])
   \<and> getFluidEstimatedQuote offlineEnv fluidTargetPool (2 ^ 511) =
       Inl (faultText (NumericOverflow (2 ^ 511)))
   \<and> getFluidQuote offlineEnv fluidTargetPool (2 ^ 511) =
       (Inl (faultText (NumericOverflow (2 ^ 511))), [])"
proof -
  have a: "getFluidQuote fluidOnlineEnv fluidTargetPool 1000000000000000000 = (Inr 100, [RealPriceImpact])"
    by (simp add: getFluidQuote_def fluidTargetPool_def poolOn_def toLowerCase_target usde_def usdt_def
        fluidOnlineEnv_def offlineEnv_def formatUnits_def)
  have b: "fluidLiveQuote fluidOnlineEnv fluidTargetPool 1000000000000000000 = Inr 200"
    by (simp add: fluidOnlineEnv_def offlineEnv_def)
  have "toLowerCase (pool_address fluidOtherPool) \<noteq> ''0xf063bd202e45d6b2843102cb4ece339026645d4a''"
    by (simp add: fluidOtherPool_def poolOn_def toLowerCase_other)
  moreover have "formatUnits (faultMessage fluidOnlineEnv) (Some 1000000000000000000)
       (decimals (tokens_base fluidOtherPool)) = Inr (1000000000000000000, 18)"
    by (simp add: formatUnits_def fluidOtherPool_def poolOn_def usde_def)
  ultimately have c: "getFluidQuote fluidOnlineEnv fluidOtherPool 1000000000000000000 =
       (Inr 999800, [EstimationFallback])"
    by (simp add: getFluidQuote_def estimation_with_catch_def estimate_other)
  have f: "formatUnits (faultMessage offlineEnv) (Some (2 ^ 511))
       (decimals (tokens_base fluidTargetPool)) = Inl (faultText (NumericOverflow (2 ^ 511)))"
    by (simp add: formatUnits_def fluidTargetPool_def poolOn_def usde_def offlineEnv_def)
  have d: "getFluidEstimatedQuote offlineEnv fluidTargetPool (2 ^ 511) =
       Inl (faultText (NumericOverflow (2 ^ 511)))"
    unfolding getFluidEstimatedQuote_def f by simp
  have e: "getFluidQuote offlineEnv fluidTargetPool (2 ^ 511) =
       (Inl (faultText (NumericOverflow (2 ^ 511))), [])"
    unfolding getFluidQuote_def f by simp
  show ?thesis using a b c d e by simp
qed

section \<open>External aggregator: the fee\<close>

lemma getZeroXQuote_output:
  assumes "getZeroXQuote env tp = Some r"
  shows "\<exists>resp. zeroXApi_getQuote env tp = Inr (Some resp)
           \<and> outputAmount (result_quote r) =
               calculateNetQuoteAmount (buyAmount resp)
                 (Some (case zeroExFee_amount resp of None \<Rightarrow> 0 | Some a \<Rightarrow> a))"
  using assms
  by (auto simp: getZeroXQuote_def Let_def split: sum.splits option.splits if_splits)

lemma getZeroXQuote_sample:
  "\<exists>r. getZeroXQuote zeroXEnv usdePair = Some r"
  by (simp add: getZeroXQuote_def zeroXEnv_def offlineEnv_def sampleResponse_def Let_def
      extractProtocolInfo_def fill_bps_def sort_cmp_def)

text \<open>
  Claim C9, as the code has it. The reported \<^verbatim>\<open>outputAmount\<close> is the aggregator's
  headline \<^verbatim>\<open>buyAmount\<close> plus the aggregator's fee: the fee is added back to the
  headline amount, not taken out of it. It is \<^verbatim>\<open>buyAmount\<close> unchanged when the fee is
  absent or zero. The quote the normalizer returns for a \<^verbatim>\<open>zerox\<close> pool carries this
  amount and is successful.
\<close>

theorem zeroX_fee_added_back:
  "(\<forall>r. getZeroXQuote env tp = Some r \<longrightarrow>
      (\<exists>resp. zeroXApi_getQuote env tp = Inr (Some resp)
         \<and> outputAmount (result_quote r) =
             buyAmount resp + (case zeroExFee_amount resp of None \<Rightarrow> 0 | Some fee \<Rightarrow> fee)
         \<and> (zeroExFee_amount resp = None \<or> zeroExFee_amount resp = Some 0 \<longrightarrow>
               outputAmount (result_quote r) = buyAmount resp)
         \<and> (dex p = ''zerox'' \<longrightarrow>
               (\<exists>q. getQuoteForPoolWithAmount env t p amount tp = Inr q
                  \<and> outputAmount q = outputAmount (result_quote r)
                  \<and> success q))))
   \<and> calculateNetQuoteAmount buy None = buy
   \<and> calculateNetQuoteAmount buy (Some 0) = buy
   \<and> calculateNetQuoteAmount buy (Some fee) = buy + fee"
proof -
  have "\<exists>resp. zeroXApi_getQuote env tp = Inr (Some resp)
         \<and> outputAmount (result_quote r) =
             buyAmount resp + (case zeroExFee_amount resp of None \<Rightarrow> 0 | Some fee \<Rightarrow> fee)
         \<and> (zeroExFee_amount resp = None \<or> zeroExFee_amount resp = Some 0 \<longrightarrow>
               outputAmount (result_quote r) = buyAmount resp)
         \<and> (dex p = ''zerox'' \<longrightarrow>
               (\<exists>q. getQuoteForPoolWithAmount env t p amount tp = Inr q
                  \<and> outputAmount q = outputAmount (result_quote r)
                  \<and> success q))"
    if r: "getZeroXQuote env tp = Some r" for r
  proof -
    from getZeroXQuote_output [OF r] obtain resp where
      resp: "zeroXApi_getQuote env tp = Inr (Some resp)"
      and out: "outputAmount (result_quote r) =
               calculateNetQuoteAmount (buyAmount resp)
                 (Some (case zeroExFee_amount resp of None \<Rightarrow> 0 | Some a \<Rightarrow> a))"
      by blast
    have s: "success (result_quote r)" using r by (rule getZeroXQuote_success)
    have "outputAmount (result_quote r) =
             buyAmount resp + (case zeroExFee_amount resp of None \<Rightarrow> 0 | Some fee \<Rightarrow> fee)"
      using out by (simp add: calculateNetQuoteAmount_def split: option.splits)
    then show ?thesis
      using resp r s by (auto simp: getQuoteForPoolWithAmount_def getQuoteForPool_try_def)
  qed
  then show ?thesis by (simp add: calculateNetQuoteAmount_def)
qed

theorem zeroX_fee_added_back_witness:
  "\<exists>q. getQuoteForPoolWithAmount zeroXEnv 0 zeroXPool 1 usdePair = Inr q
     \<and> outputAmount q = 1005 \<and> success q"
proof -
  obtain r where r: "getZeroXQuote zeroXEnv usdePair = Some r"
    using getZeroXQuote_sample by blast
  have api: "zeroXApi_getQuote zeroXEnv usdePair = Inr (Some sampleResponse)"
    by (simp add: zeroXEnv_def offlineEnv_def)
  have d: "dex zeroXPool = ''zerox''" by (simp add: zeroXPool_def poolOn_def)
  from zeroX_fee_added_back [of zeroXEnv usdePair zeroXPool 0 1 0 0] r api d
  obtain q where q: "getQuoteForPoolWithAmount zeroXEnv 0 zeroXPool 1 usdePair = Inr q"
    "outputAmount q = outputAmount (result_quote r)" "success q"
    and out: "outputAmount (result_quote r) =
      buyAmount sampleResponse
        + (case zeroExFee_amount sampleResponse of None \<Rightarrow> 0 | Some fee \<Rightarrow> fee)"
    by auto
  have "outputAmount q = 1005" using q(2) out by (simp add: sampleResponse_def)
  then show ?thesis using q(1,3) by blast
qed

text \<open>
  The claim as stated has the fee netted out of the headline amount. For a response
  with the headline \<^verbatim>\<open>buyAmount\<close> \<open>1000\<close> and the fee \<open>5\<close> the reported amount is \<open>1005\<close>,
  more than the headline amount.
\<close>

theorem zeroX_fee_netted_counterexample:
  "zeroXApi_getQuote zeroXEnv usdePair = Inr (Some sampleResponse)
   \<and> buyAmount sampleResponse = 1000
   \<and> zeroExFee_amount sampleResponse = Some 5
   \<and> (\<exists>r. getZeroXQuote zeroXEnv usdePair = Some r \<and> outputAmount (result_quote r) = 1005)
   \<and> calculateNetQuoteAmount 1000 (Some 5) = 1005"
proof -
  obtain r where r: "getZeroXQuote zeroXEnv usdePair = Some r"
    using getZeroXQuote_sample by blast
  have api: "zeroXApi_getQuote zeroXEnv usdePair = Inr (Some sampleResponse)"
    by (simp add: zeroXEnv_def offlineEnv_def)
  have "outputAmount (result_quote r) = 1005"
    using getZeroXQuote_output [OF r] api
    by (auto simp: sampleResponse_def calculateNetQuoteAmount_def)
  then show ?thesis
    using r api by (simp add: sampleResponse_def calculateNetQuoteAmount_def)
qed

end
